theory Spec2Isabelle
  imports Main "HOL-Library.Multiset"
begin

section \<open>Data model of the heading plugin (src/main.ts)\<close>

text \<open>
  The plugin is TypeScript running inside a host application. Numbers that the code uses
  as line numbers, levels and array indices are modelled as \<open>int\<close>; a value that can be
  \<open>undefined\<close> or \<open>null\<close> at run time is an \<open>option\<close> with \<open>None\<close> for it; a thrown
  exception is a value of \<open>js_error\<close>.
\<close>

datatype js_error =
    TypeError     \<comment> \<open>property read on \<open>undefined\<close>\<close>
  | SyntaxError   \<comment> \<open>\<open>new RegExp\<close> on a pattern that does not compile\<close>
  | Error string  \<comment> \<open>\<open>Error(msg)\<close>, and a rejected host promise\<close>

text \<open>
  \<open>interface HeadingEntry\<close>. The field \<open>text\<close> (here \<open>entry_text\<close>) is declared \<open>string\<close>, but the code stores
  \<open>matches[1]\<close> in it, which is \<open>undefined\<close> when the match array has no index 1; hence
  the option. \<open>uiElement\<close> is a reference to a DOM node, modelled by the node's identity.
\<close>

record HeadingEntry =
  entry_text :: "string option"  \<comment> \<open>the field \<open>text\<close>\<close>
  level :: int
  line :: int
  uiElement :: "nat option"

section \<open>Cursor locator\<close>

text \<open>
  The \<open>while (start <= end)\<close> loop of \<open>findClosestLineOnOrAbove\<close>. Reading
  \<open>headingArray[mid].line\<close> outside the array throws a \<open>TypeError\<close> in the source, so the
  model has that branch as well.
\<close>

function findClosest_loop ::
  "HeadingEntry list \<Rightarrow> int \<Rightarrow> int \<Rightarrow> int \<Rightarrow> HeadingEntry option \<Rightarrow> js_error + HeadingEntry option"
where
  "findClosest_loop headingArray target start endIdx bestMatch =
     (if start \<le> endIdx then
        (let mid = (start + endIdx) div 2 in
         if mid < 0 \<or> int (length headingArray) \<le> mid then Inl TypeError
         else
           (let currentLine = line (headingArray ! nat mid) in
            if currentLine = target then Inr (Some (headingArray ! nat mid))
            else if currentLine < target then
              findClosest_loop headingArray target (mid + 1) endIdx (Some (headingArray ! nat mid))
            else findClosest_loop headingArray target start (mid - 1) bestMatch))
      else Inr bestMatch)"
  by pat_completeness auto
termination
  by (relation "measure (\<lambda>(headingArray, target, start, endIdx, bestMatch). nat (endIdx - start + 1))")
     auto

text \<open>
  \<open>findClosestLineOnOrAbove(headingArray, target)\<close>. The caller passes
  \<open>this.cachedHeadings[activeFile.name]\<close>, which is \<open>undefined\<close> for a name without an
  entry; \<open>headingArray.length\<close> then throws.
\<close>

definition findClosestLineOnOrAbove ::
  "HeadingEntry list option \<Rightarrow> int \<Rightarrow> js_error + HeadingEntry option"
where
  "findClosestLineOnOrAbove headingArray target =
     (case headingArray of
        None \<Rightarrow> Inl TypeError
      | Some arr \<Rightarrow>
          if length arr = 0 then Inr None
          else findClosest_loop arr target 0 (int (length arr) - 1) None)"

text \<open>What the specification asks of the result, in its own words: the entry is in the
  sequence, its line is at most the target, and no entry at or below the target has a
  greater line; nothing is returned exactly when no entry is at or below the target.\<close>

definition nearest_on_or_above :: "HeadingEntry list \<Rightarrow> int \<Rightarrow> HeadingEntry option \<Rightarrow> bool" where
  "nearest_on_or_above S t r =
     (case r of
        None \<Rightarrow> list_all (\<lambda>e. t < line e) S
      | Some e \<Rightarrow> e \<in> set S \<and> line e \<le> t \<and> list_all (\<lambda>e'. line e' \<le> t \<longrightarrow> line e' \<le> line e) S)"

section \<open>Settings, host objects and the pattern engine\<close>

text \<open>\<open>interface RegexSetting\<close>; its field \<open>level\<close> is \<open>regex_level\<close> here.\<close>

record RegexSetting =
  pattern :: string
  regex_level :: int

record HeadingPluginSettings =
  showHeadings :: bool
  showHeading1 :: bool
  showHeading2 :: bool
  showHeading3 :: bool
  showHeading4 :: bool
  showHeading5 :: bool
  showHeading6 :: bool
  regexArray :: "RegexSetting list"

definition backslash :: char where
  "backslash = CHR 0x5C"

text \<open>The default pattern: the characters \<^verbatim>\<open>^\*\*([^*]+)\*\*$\<close>.\<close>

definition default_pattern :: string where
  "default_pattern =
     ''^'' @ [backslash] @ ''*'' @ [backslash] @ ''*([^*]+)'' @ [backslash] @ ''*'' @ [backslash] @ ''*$''"

definition DEFAULT_SETTINGS :: HeadingPluginSettings where
  "DEFAULT_SETTINGS =
     \<lparr>showHeadings = True, showHeading1 = True, showHeading2 = True, showHeading3 = True,
      showHeading4 = True, showHeading5 = True, showHeading6 = True,
      regexArray = [\<lparr>pattern = default_pattern, regex_level = 7\<rparr>]\<rparr>"

text \<open>
  The host's \<open>HeadingCache\<close> (fields \<open>heading\<close>, \<open>level\<close>, \<open>position.start.line\<close>),
  \<open>CachedMetadata\<close> (only its optional \<open>headings\<close> is read) and \<open>TFile\<close>.
\<close>

record HeadingCache =
  heading :: string
  heading_level :: int
  position_start_line :: int

record CachedMetadata =
  headings :: "HeadingCache list option"

record TFile =
  path :: string
  name :: string

text \<open>
  The regular-expression engine is the host language's, not the plugin's: it is a
  parameter of the model. \<open>new RegExp(p)\<close> either throws or gives a matcher, and
  \<open>line.match(regex)\<close> is \<open>null\<close> or the match array, whose elements are strings or
  \<open>undefined\<close>. Reading an array beyond its length gives \<open>undefined\<close>.
\<close>

type_synonym RegExpMatchArray = "string option list"
type_synonym RegExp = "string \<Rightarrow> RegExpMatchArray option"
type_synonym RegExpCtor = "string \<Rightarrow> js_error + RegExp"

definition js_index :: "'a option list \<Rightarrow> nat \<Rightarrow> 'a option" where
  "js_index xs i = (if i < length xs then xs ! i else None)"

section \<open>Index builder: structural headings\<close>

text \<open>The condition of the \<open>if\<close> inside the \<open>reduce\<close> callback.\<close>

definition level_hidden :: "HeadingPluginSettings \<Rightarrow> HeadingCache \<Rightarrow> bool" where
  "level_hidden s h =
     ((heading_level h = 1 \<and> \<not> showHeading1 s) \<or>
      (heading_level h = 2 \<and> \<not> showHeading2 s) \<or>
      (heading_level h = 3 \<and> \<not> showHeading3 s) \<or>
      (heading_level h = 4 \<and> \<not> showHeading4 s) \<or>
      (heading_level h = 5 \<and> \<not> showHeading5 s) \<or>
      (heading_level h = 6 \<and> \<not> showHeading6 s))"

definition entry_of_heading :: "HeadingCache \<Rightarrow> HeadingEntry" where
  "entry_of_heading h =
     \<lparr>entry_text = Some (heading h), level = heading_level h, line = position_start_line h,
      uiElement = None\<rparr>"

text \<open>\<open>headings.reduce((acc, heading) => ..., [])\<close>.\<close>

fun headings_reduce ::
  "HeadingPluginSettings \<Rightarrow> HeadingEntry list \<Rightarrow> HeadingCache list \<Rightarrow> HeadingEntry list"
where
  "headings_reduce s acc [] = acc"
| "headings_reduce s acc (h # hs) =
     (if level_hidden s h then headings_reduce s acc hs
      else headings_reduce s (acc @ [entry_of_heading h]) hs)"

text \<open>\<open>fileCache.headings || []\<close>.\<close>

definition headings_of :: "CachedMetadata \<Rightarrow> HeadingCache list" where
  "headings_of fileCache = (case headings fileCache of None \<Rightarrow> [] | Some hs \<Rightarrow> hs)"

definition mappedHeadings :: "HeadingPluginSettings \<Rightarrow> CachedMetadata \<Rightarrow> HeadingEntry list" where
  "mappedHeadings s fileCache = headings_reduce s [] (headings_of fileCache)"

section \<open>Index builder: pattern matches\<close>

text \<open>\<open>fileContent.split('\n')\<close>: never empty.\<close>

fun split_lines :: "string \<Rightarrow> string list" where
  "split_lines [] = [[]]"
| "split_lines (c # cs) =
     (if c = CHR 0x0A then [] # split_lines cs
      else (case split_lines cs of [] \<Rightarrow> [[c]] | l # ls \<Rightarrow> (c # l) # ls))"

text \<open>
  The body of the inner \<open>forEach\<close> callback, for one line and one \<open>RegexSetting\<close>: the
  entries it pushes, or the exception of \<open>new RegExp\<close>.
\<close>

definition match_line :: "RegExpCtor \<Rightarrow> string \<Rightarrow> int \<Rightarrow> RegexSetting \<Rightarrow> js_error + HeadingEntry list" where
  "match_line newRegExp ln index regexSetting =
     (case newRegExp (pattern regexSetting) of
        Inl e \<Rightarrow> Inl e
      | Inr regex \<Rightarrow>
          (case regex ln of
             None \<Rightarrow> Inr []
           | Some matches \<Rightarrow>
               if length matches < 1 then
                 Inr [\<lparr>entry_text = js_index matches 0, level = regex_level regexSetting,
                       line = index, uiElement = None\<rparr>]
               else
                 Inr [\<lparr>entry_text = js_index matches 1, level = regex_level regexSetting,
                       line = index, uiElement = None\<rparr>]))"

text \<open>\<open>this.settings.regexArray.forEach\<close> on one line; an exception ends it.\<close>

fun regexArray_forEach ::
  "RegExpCtor \<Rightarrow> string \<Rightarrow> int \<Rightarrow> RegexSetting list \<Rightarrow> js_error + HeadingEntry list"
where
  "regexArray_forEach newRegExp ln index [] = Inr []"
| "regexArray_forEach newRegExp ln index (regexSetting # rest) =
     (case match_line newRegExp ln index regexSetting of
        Inl e \<Rightarrow> Inl e
      | Inr pushed \<Rightarrow>
          (case regexArray_forEach newRegExp ln index rest of
             Inl e \<Rightarrow> Inl e
           | Inr later \<Rightarrow> Inr (pushed @ later)))"

text \<open>\<open>fileLines.forEach((line, index) => ...)\<close>, from the given index on.\<close>

fun fileLines_forEach ::
  "RegExpCtor \<Rightarrow> RegexSetting list \<Rightarrow> int \<Rightarrow> string list \<Rightarrow> js_error + HeadingEntry list"
where
  "fileLines_forEach newRegExp rs index [] = Inr []"
| "fileLines_forEach newRegExp rs index (ln # lns) =
     (case regexArray_forEach newRegExp ln index rs of
        Inl e \<Rightarrow> Inl e
      | Inr pushed \<Rightarrow>
          (case fileLines_forEach newRegExp rs (index + 1) lns of
             Inl e \<Rightarrow> Inl e
           | Inr later \<Rightarrow> Inr (pushed @ later)))"

definition matchedHeadings :: "RegExpCtor \<Rightarrow> HeadingPluginSettings \<Rightarrow> string \<Rightarrow> js_error + HeadingEntry list" where
  "matchedHeadings newRegExp s fileContent =
     fileLines_forEach newRegExp (regexArray s) 0 (split_lines fileContent)"

section \<open>The file explorer's DOM\<close>

text \<open>
  A DOM element, as far as the plugin reads or writes it: an identity (\<open>uid\<close>, so that
  \<open>uiElement\<close> can refer to it), its class list, its text, the left margin in pixels that
  \<open>style.marginLeft\<close> was set to, the file path and line that its \<open>click\<close> and \<open>auxclick\<close>
  handlers open, and its children in document order.
\<close>

datatype Element =
  Element (uid: nat) (classList: "string list") (textContent: string)
    (marginLeft: "int option") (clickTarget: "(string \<times> int) option") (children: "Element list")

text \<open>
  \<open>querySelector('.c')\<close> on an element looks through its descendants in document order
  (an element before its children, the children before the next sibling) and gives the
  first one of class \<open>c\<close>.
\<close>

fun querySelector_list :: "string \<Rightarrow> Element list \<Rightarrow> Element option" where
  "querySelector_list c [] = None"
| "querySelector_list c (Element u cl t m h cs # es) =
     (if c \<in> set cl then Some (Element u cl t m h cs)
      else (case querySelector_list c cs of
              Some r \<Rightarrow> Some r
            | None \<Rightarrow> querySelector_list c es))"

definition querySelector :: "string \<Rightarrow> Element \<Rightarrow> Element option" where
  "querySelector c item = querySelector_list c (children item)"

text \<open>
  The element that \<open>querySelector\<close> returned is a reference into the tree: a write through
  it changes that element in place. \<open>update_first c f\<close> applies \<open>f\<close> to the first element of
  class \<open>c\<close> in document order.
\<close>

fun update_first :: "string \<Rightarrow> (Element \<Rightarrow> Element) \<Rightarrow> Element list \<Rightarrow> Element list" where
  "update_first c f [] = []"
| "update_first c f (Element u cl t m h cs # es) =
     (if c \<in> set cl then f (Element u cl t m h cs) # es
      else if querySelector_list c cs \<noteq> None then Element u cl t m h (update_first c f cs) # es
      else Element u cl t m h cs # update_first c f es)"

definition replaceChildren :: "Element list \<Rightarrow> Element \<Rightarrow> Element" where
  "replaceChildren new e = Element (uid e) (classList e) (textContent e) (marginLeft e) (clickTarget e) new"

definition appendChild :: "Element \<Rightarrow> Element \<Rightarrow> Element" where
  "appendChild child e = replaceChildren (children e @ [child]) e"

fun addClass :: "nat \<Rightarrow> string \<Rightarrow> Element \<Rightarrow> Element" where
  "addClass n c (Element u cl t m h cs) =
     Element u (if u = n \<and> c \<notin> set cl then cl @ [c] else cl) t m h (map (addClass n c) cs)"

fun count_class :: "string \<Rightarrow> Element list \<Rightarrow> nat" where
  "count_class c [] = 0"
| "count_class c (Element u cl t m h cs # es) =
     (if c \<in> set cl then 1 else 0) + count_class c cs + count_class c es"

definition container_class :: string where
  "container_class = ''file-heading-container''"

definition heading_class :: string where
  "heading_class = ''clickable-heading''"

text \<open>\<open>interface FileItem\<close>, with \<open>info.height\<close> and \<open>info.computed\<close> flattened.\<close>

record FileItem =
  info_height :: int
  info_computed :: bool
  innerEl :: Element

text \<open>The leaf that was last active: the file of its view, and the editor's cursor line.\<close>

record WorkspaceLeaf =
  view_file :: "TFile option"
  cursor_line :: int

section \<open>Plugin and host state\<close>

text \<open>
  The plugin instance (\<open>settings\<close>, \<open>lastActiveMarkdownLeaf\<close>, \<open>cachedHeadings\<close>) and what it
  reads and writes in the host:
  \<^item> \<open>cachedHeadings\<close> is a JavaScript object keyed by file name; a name without an entry
    and a name whose entry is \<open>undefined\<close> read the same, \<open>None\<close> here;
  \<^item> \<open>metadataCache\<close> is \<open>app.metadataCache.getFileCache\<close> and \<open>vault\<close> is
    \<open>app.vault.read\<close> (\<open>None\<close>: the read is rejected), both by file path;
  \<^item> \<open>markdownFiles\<close> is \<open>app.vault.getMarkdownFiles()\<close>;
  \<^item> \<open>fileExplorer\<close> is the \<open>fileItems\<close> of the first leaf whose view has them, \<open>None\<close> when
    no leaf has;
  \<^item> \<open>marginMultiplier\<close> is \<open>parseInt\<close> of the style property
    \<open>--clickable-heading-margin-multiplier\<close>, \<open>None\<close> for \<open>NaN\<close>;
  \<^item> \<open>nextUid\<close> is the identity that the next \<open>document.createElement\<close> gives;
  \<^item> \<open>revealed\<close> lists the paths passed to \<open>revealInFolder\<close>.
  Timers (\<open>setTimeout\<close>) are outside the model: it has the state right after each call.
\<close>

record World =
  settings :: HeadingPluginSettings
  lastActiveMarkdownLeaf :: "WorkspaceLeaf option"
  cachedHeadings :: "string \<Rightarrow> HeadingEntry list option"
  metadataCache :: "string \<Rightarrow> CachedMetadata option"
  vault :: "string \<Rightarrow> string option"
  markdownFiles :: "TFile list"
  fileExplorer :: "(string \<Rightarrow> FileItem option) option"
  marginMultiplier :: "int option"
  nextUid :: nat
  revealed :: "string list"

text \<open>\<open>getFileExplorerLeaf\<close> followed by \<open>.view.fileItems\<close>.\<close>

definition getFileExplorerFileItems :: "World \<Rightarrow> js_error + (string \<Rightarrow> FileItem option)" where
  "getFileExplorerFileItems w =
     (case fileExplorer w of
        None \<Rightarrow> Inl (Error ''Could not find file explorer leaf.'')
      | Some fileItems \<Rightarrow> Inr fileItems)"

section \<open>Explorer UI synchroniser\<close>

text \<open>
  \<open>getHeadingContainer(item)\<close>: the item afterwards and the next free identity. The
  container it returns is, in both branches, the first element of class
  \<open>file-heading-container\<close> below the item afterwards.
\<close>

definition getHeadingContainer :: "Element \<Rightarrow> nat \<Rightarrow> Element \<times> nat" where
  "getHeadingContainer item n =
     (case querySelector container_class item of
        Some existingContainer \<Rightarrow> (item, n)
      | None \<Rightarrow> (appendChild (Element n [container_class] [] None None []) item, Suc n))"

text \<open>A write through the container that \<open>getHeadingContainer\<close> returned.\<close>

definition in_headingContainer :: "(Element \<Rightarrow> Element) \<Rightarrow> Element \<Rightarrow> Element" where
  "in_headingContainer f item = replaceChildren (update_first container_class f (children item)) item"

text \<open>\<open>parseInt(...) || 10\<close>: \<open>NaN\<close> and \<open>0\<close> give 10.\<close>

definition getMarginMultiplier :: "World \<Rightarrow> int" where
  "getMarginMultiplier w = (case marginMultiplier w of None \<Rightarrow> 10 | Some k \<Rightarrow> if k = 0 then 10 else k)"

text \<open>The element that the \<open>forEach\<close> callback of \<open>createClickableHeadings\<close> builds for one
  heading; \<open>textContent = undefined\<close> gives the empty text.\<close>

definition headingItem :: "string \<Rightarrow> int \<Rightarrow> nat \<Rightarrow> HeadingEntry \<Rightarrow> Element" where
  "headingItem filePath multiplier n h =
     Element n [heading_class] (case entry_text h of None \<Rightarrow> [] | Some t \<Rightarrow> t)
       (Some ((level h - 1) * multiplier)) (Some (filePath, line h)) []"

text \<open>\<open>headings.forEach(heading => ...)\<close>: the headings with \<open>uiElement\<close> set, the next free
  identity and the item afterwards.\<close>

fun headings_forEach ::
  "string \<Rightarrow> int \<Rightarrow> HeadingEntry list \<Rightarrow> nat \<Rightarrow> Element \<Rightarrow> HeadingEntry list \<times> nat \<times> Element"
where
  "headings_forEach filePath multiplier [] n item = ([], n, item)"
| "headings_forEach filePath multiplier (h # hs) n item =
     (case headings_forEach filePath multiplier hs (Suc n)
             (in_headingContainer (appendChild (headingItem filePath multiplier n h)) item) of
        (hs', n', item') \<Rightarrow> (h\<lparr>uiElement := Some n\<rparr> # hs', n', item'))"

text \<open>
  \<open>createClickableHeadings(file, headings)\<close>: the headings as the call leaves them (it
  stores the node of each in \<open>uiElement\<close>) or the exception, and the state afterwards.
  \<open>fileExplorerLeafItems[file.path]\<close> is \<open>undefined\<close> for a path without tree entry, and
  reading \<open>innerEl\<close> of it throws.
\<close>

definition createClickableHeadings ::
  "TFile \<Rightarrow> HeadingEntry list \<Rightarrow> World \<Rightarrow> (js_error + HeadingEntry list) \<times> World"
where
  "createClickableHeadings file hs w =
     (if length hs = 0 then (Inr hs, w)
      else
        (case getFileExplorerFileItems w of
           Inl e \<Rightarrow> (Inl e, w)
         | Inr fileExplorerLeafItems \<Rightarrow>
             (case fileExplorerLeafItems (path file) of
                None \<Rightarrow> (Inl TypeError, w)
              | Some fileItem \<Rightarrow>
                  (case getHeadingContainer (innerEl fileItem) (nextUid w) of
                     (item, n) \<Rightarrow>
                       (case headings_forEach (path file) (getMarginMultiplier w) hs n
                               (in_headingContainer (replaceChildren []) item) of
                          (hs', n', item') \<Rightarrow>
                            (Inr hs',
                             w\<lparr>fileExplorer :=
                                 Some (fileExplorerLeafItems
                                         (path file := Some (fileItem\<lparr>innerEl := item'\<rparr>))),
                               nextUid := n'\<rparr>))))))"

text \<open>\<open>clearExplorerHeight\<close>. Its callers do not await it, so its rejection (no file
  explorer leaf) reaches nobody.\<close>

definition clearExplorerHeight :: "World \<Rightarrow> World" where
  "clearExplorerHeight w =
     (case getFileExplorerFileItems w of
        Inl e \<Rightarrow> w
      | Inr fileExplorerLeafItems \<Rightarrow>
          w\<lparr>fileExplorer :=
              Some (\<lambda>key. map_option (\<lambda>obj. obj\<lparr>info_height := 0, info_computed := False\<rparr>)
                      (fileExplorerLeafItems key))\<rparr>)"

text \<open>What is visible below a file's tree entry: text and indent of each node in its
  heading container, in order; \<open>None\<close> when there is no entry or no container.\<close>

definition visible_headings :: "TFile \<Rightarrow> World \<Rightarrow> (string \<times> int option) list option" where
  "visible_headings file w =
     (case fileExplorer w of
        None \<Rightarrow> None
      | Some fileItems \<Rightarrow>
          (case fileItems (path file) of
             None \<Rightarrow> None
           | Some fileItem \<Rightarrow>
               map_option (\<lambda>c. map (\<lambda>e. (textContent e, marginLeft e)) (children c))
                 (querySelector container_class (innerEl fileItem))))"

text \<open>The number of heading containers below a file's tree entry.\<close>

definition container_count :: "TFile \<Rightarrow> World \<Rightarrow> nat option" where
  "container_count file w =
     (case fileExplorer w of
        None \<Rightarrow> None
      | Some fileItems \<Rightarrow>
          map_option (\<lambda>fileItem. count_class container_class (children (innerEl fileItem)))
            (fileItems (path file)))"

text \<open>The nodes in the heading container of a file's tree entry; and what, in the words
  of the specification, the node of an entry shows: the entry's text, indented by the
  multiplier times the level less one.\<close>

definition drawn_nodes :: "TFile \<Rightarrow> World \<Rightarrow> Element list option" where
  "drawn_nodes file w =
     (case fileExplorer w of
        None \<Rightarrow> None
      | Some fileItems \<Rightarrow>
          (case fileItems (path file) of
             None \<Rightarrow> None
           | Some fileItem \<Rightarrow> map_option children (querySelector container_class (innerEl fileItem))))"

definition heading_view :: "int \<Rightarrow> HeadingEntry \<Rightarrow> string \<times> int option" where
  "heading_view multiplier h =
     ((case entry_text h of None \<Rightarrow> [] | Some t \<Rightarrow> t), Some ((level h - 1) * multiplier))"

section \<open>Index builder\<close>

text \<open>
  \<open>createHeadingsForFile(file)\<close>: the value it returns (\<open>None\<close> for \<open>undefined\<close>) or the
  exception it throws, and the state afterwards. \<open>Array.prototype.sort\<close> with the comparator
  \<open>a.line - b.line\<close> is a stable sort by \<open>line\<close> (ECMAScript 2019 and later require
  stability), which \<open>sort_key\<close> is.
\<close>

definition createHeadingsForFile ::
  "RegExpCtor \<Rightarrow> TFile \<Rightarrow> World \<Rightarrow> (js_error + HeadingEntry list option) \<times> World"
where
  "createHeadingsForFile newRegExp file w =
     (case metadataCache w (path file) of
        None \<Rightarrow> (Inr None, w)
      | Some fileCache \<Rightarrow>
          if length (regexArray (settings w)) = 0 then
            (case createClickableHeadings file (sort_key line (mappedHeadings (settings w) fileCache)) w of
               (Inl e, w') \<Rightarrow> (Inl e, w')
             | (Inr drawn, w') \<Rightarrow> (Inr (Some drawn), w'))
          else
            (case vault w (path file) of
               None \<Rightarrow> (Inl (Error ''vault.read''), w)
             | Some fileContent \<Rightarrow>
                 (case matchedHeadings newRegExp (settings w) fileContent of
                    Inl e \<Rightarrow> (Inl e, w)
                  | Inr matched \<Rightarrow>
                      (case createClickableHeadings file
                              (sort_key line (mappedHeadings (settings w) fileCache @ matched)) w of
                         (Inl e, w') \<Rightarrow> (Inl e, w')
                       | (Inr drawn, w') \<Rightarrow> (Inr (Some drawn), w')))))"

text \<open>The \<open>for (const file of files)\<close> loop of \<open>init\<close>: an exception of
  \<open>createHeadingsForFile\<close> leaves the loop.\<close>

fun init_files :: "RegExpCtor \<Rightarrow> TFile list \<Rightarrow> World \<Rightarrow> js_error option \<times> World" where
  "init_files newRegExp [] w = (None, w)"
| "init_files newRegExp (file # files) w =
     (case createHeadingsForFile newRegExp file w of
        (Inl e, w') \<Rightarrow> (Some e, w')
      | (Inr headingsForFile, w') \<Rightarrow>
          init_files newRegExp files
            (w'\<lparr>cachedHeadings := (cachedHeadings w')(name file := headingsForFile)\<rparr>))"

text \<open>\<open>init\<close>, without the navigation button that \<open>setupLocateButton\<close> adds to the header
  (it is not awaited and touches nothing of this state).\<close>

definition init :: "RegExpCtor \<Rightarrow> World \<Rightarrow> js_error option \<times> World" where
  "init newRegExp w =
     (if \<not> showHeadings (settings w) then (None, clearExplorerHeight w)
      else
        (case init_files newRegExp (markdownFiles w) w of
           (Some e, w') \<Rightarrow> (Some e, w')
         | (None, w') \<Rightarrow> (None, clearExplorerHeight w')))"

section \<open>Highlight location\<close>

text \<open>\<open>closestLine.uiElement?.addClass(c)\<close>, seen from the file explorer: the element of that identity,
  where it is still attached, gets the class.\<close>

definition uiElement_addClass :: "nat option \<Rightarrow> string \<Rightarrow> World \<Rightarrow> World" where
  "uiElement_addClass el c w =
     (case el of
        None \<Rightarrow> w
      | Some n \<Rightarrow>
          w\<lparr>fileExplorer :=
              map_option
                (\<lambda>fileItems key. map_option (\<lambda>obj. obj\<lparr>innerEl := addClass n c (innerEl obj)\<rparr>)
                                    (fileItems key))
                (fileExplorer w)\<rparr>)"

text \<open>\<open>highlightFileWithHeading\<close>: the exception it throws, if any, and the state right
  after it (the class is removed again two seconds later).\<close>

definition highlightFileWithHeading :: "World \<Rightarrow> js_error option \<times> World" where
  "highlightFileWithHeading w =
     (case lastActiveMarkdownLeaf w of
        None \<Rightarrow> (None, w)
      | Some activeLeaf \<Rightarrow>
          (case view_file activeLeaf of
             None \<Rightarrow> (None, w)
           | Some activeFile \<Rightarrow>
               (let activeHeadings = cachedHeadings w (name activeFile);
                    w1 = w\<lparr>revealed := revealed w @ [path activeFile]\<rparr>
                in case findClosestLineOnOrAbove activeHeadings (cursor_line activeLeaf) of
                     Inl e \<Rightarrow> (Some e, w1)
                   | Inr None \<Rightarrow> (None, w1)
                   | Inr (Some closestLine) \<Rightarrow>
                       (None, uiElement_addClass (uiElement closestLine) ''highlighted-heading'' w1))))"

section \<open>Notions used to state the claims\<close>

text \<open>An entry as the index builder made it, before the redraw stored a node in it.\<close>

definition without_uiElement :: "HeadingEntry \<Rightarrow> HeadingEntry" where
  "without_uiElement h = h\<lparr>uiElement := None\<rparr>"

text \<open>The pattern entries that \<open>createHeadingsForFile\<close> computes for a file: none, without
  reading the file, when the pattern list is empty.\<close>

definition pattern_entries :: "RegExpCtor \<Rightarrow> TFile \<Rightarrow> World \<Rightarrow> js_error + HeadingEntry list" where
  "pattern_entries newRegExp file w =
     (if length (regexArray (settings w)) = 0 then Inr []
      else (case vault w (path file) of
              None \<Rightarrow> Inl (Error ''vault.read'')
            | Some fileContent \<Rightarrow> matchedHeadings newRegExp (settings w) fileContent))"

text \<open>The visibility flag of a level, in the words of the specification: levels 1 to 6
  have one; a heading of any other level (the host emits none) is not filtered.\<close>

definition visibility_flag :: "HeadingPluginSettings \<Rightarrow> int \<Rightarrow> bool" where
  "visibility_flag s L =
     (if L = 1 then showHeading1 s else if L = 2 then showHeading2 s
      else if L = 3 then showHeading3 s else if L = 4 then showHeading4 s
      else if L = 5 then showHeading5 s else if L = 6 then showHeading6 s
      else True)"


section \<open>Sample inputs\<close>

text \<open>
  A pattern engine for the examples: it gives what \<open>new RegExp\<close> and \<open>String.match\<close> give
  for three pattern strings, on every line, and rejects any other pattern (none occurs
  in the examples).
  \<^item> the default pattern matches a line that is \<open>**\<close>, one or more characters other
    than \<open>*\<close>, \<open>**\<close>; the match array is the line and the characters in between;
  \<^item> \<^verbatim>\<open>^TODO$\<close>, which has no capture group, matches the line \<open>TODO\<close>; the match array
    has the line only;
  \<^item> \<^verbatim>\<open>(\<close> does not compile.
\<close>

definition bold_line :: RegExp where
  "bold_line ln =
     (let inner = take (length ln - 4) (drop 2 ln)
      in if 5 \<le> length ln \<and> take 2 ln = ''**'' \<and> drop (length ln - 2) ln = ''**''
            \<and> CHR ''*'' \<notin> set inner
         then Some [Some ln, Some inner] else None)"

definition todo_line :: RegExp where
  "todo_line ln = (if ln = ''TODO'' then Some [Some ln] else None)"

definition sample_RegExp :: RegExpCtor where
  "sample_RegExp p =
     (if p = default_pattern then Inr bold_line
      else if p = ''^TODO$'' then Inr todo_line
      else if p = ''('' then Inl SyntaxError
      else Inl (Error ''pattern outside the examples''))"

definition file_a :: TFile where
  "file_a = \<lparr>path = ''notes/a.md'', name = ''a.md''\<rparr>"

definition file_b :: TFile where
  "file_b = \<lparr>path = ''notes/b.md'', name = ''b.md''\<rparr>"

definition tree_entry :: "nat \<Rightarrow> string \<Rightarrow> FileItem" where
  "tree_entry n title =
     \<lparr>info_height = 20, info_computed = True,
      innerEl = Element n [''tree-item-inner''] title None None []\<rparr>"

definition sample_fileItems :: "string \<Rightarrow> FileItem option" where
  "sample_fileItems p =
     (if p = ''notes/a.md'' then Some (tree_entry 0 ''a'')
      else if p = ''notes/b.md'' then Some (tree_entry 1 ''b'')
      else None)"

text \<open>A vault of two files. \<open>a.md\<close> has the structural heading \<open>Intro\<close> of level 1 on line
  10 and the bold line \<open>**Important**\<close> on line 5; \<open>b.md\<close> has the structural heading \<open>Bee\<close>
  of level 2 on line 0 and the line \<open>TODO\<close> on line 1.\<close>

definition sample_world :: World where
  "sample_world =
     \<lparr>settings = DEFAULT_SETTINGS,
      lastActiveMarkdownLeaf = None,
      cachedHeadings = (\<lambda>key. None),
      metadataCache = (\<lambda>p.
         if p = ''notes/a.md'' then
           Some \<lparr>headings = Some [\<lparr>heading = ''Intro'', heading_level = 1, position_start_line = 10\<rparr>]\<rparr>
         else if p = ''notes/b.md'' then
           Some \<lparr>headings = Some [\<lparr>heading = ''Bee'', heading_level = 2, position_start_line = 0\<rparr>]\<rparr>
         else None),
      vault = (\<lambda>p.
         if p = ''notes/a.md'' then
           Some (replicate 5 (CHR 0x0A) @ ''**Important**'' @ replicate 5 (CHR 0x0A) @ ''# Intro'')
         else if p = ''notes/b.md'' then Some (''## Bee'' @ [CHR 0x0A] @ ''TODO'')
         else None),
      markdownFiles = [file_a, file_b],
      fileExplorer = Some sample_fileItems,
      marginMultiplier = None,
      nextUid = 2,
      revealed = []\<rparr>"

text \<open>A sorted index of three entries.\<close>

definition sample_index :: "HeadingEntry list" where
  "sample_index =
     [\<lparr>entry_text = Some ''Top'', level = 1, line = 0, uiElement = None\<rparr>,
      \<lparr>entry_text = Some ''Important'', level = 7, line = 5, uiElement = None\<rparr>,
      \<lparr>entry_text = Some ''Intro'', level = 2, line = 10, uiElement = None\<rparr>]"

text \<open>The index of \<open>a.md\<close> after the first redraw (the container got identity 2).\<close>

definition drawn_index_a :: "HeadingEntry list" where
  "drawn_index_a =
     [\<lparr>entry_text = Some ''Important'', level = 7, line = 5, uiElement = Some 3\<rparr>,
      \<lparr>entry_text = Some ''Intro'', level = 1, line = 10, uiElement = Some 4\<rparr>]"

text \<open>A file that the metadata cache does not know; a pattern list whose first pattern
  does not compile; a pattern list with a pattern that has no capture group; and the
  state in which headings are switched off and \<open>a.md\<close> is the focused document with the
  cursor on line 7, and the same with headings switched on.\<close>

definition file_c :: TFile where
  "file_c = \<lparr>path = ''notes/c.md'', name = ''c.md''\<rparr>"

definition malformed_world :: World where
  "malformed_world =
     sample_world\<lparr>settings := DEFAULT_SETTINGS
       \<lparr>regexArray := [\<lparr>pattern = ''('', regex_level = 3\<rparr>,
                       \<lparr>pattern = default_pattern, regex_level = 7\<rparr>]\<rparr>\<rparr>"

definition todo_world :: World where
  "todo_world =
     sample_world\<lparr>settings := DEFAULT_SETTINGS
       \<lparr>regexArray := [\<lparr>pattern = ''^TODO$'', regex_level = 7\<rparr>]\<rparr>\<rparr>"

definition focused_world :: World where
  "focused_world =
     sample_world\<lparr>settings := DEFAULT_SETTINGS\<lparr>showHeadings := False\<rparr>,
                  lastActiveMarkdownLeaf := Some \<lparr>view_file = Some file_a, cursor_line = 7\<rparr>\<rparr>"

definition indexed_focused_world :: World where
  "indexed_focused_world =
     sample_world\<lparr>lastActiveMarkdownLeaf := Some \<lparr>view_file = Some file_a, cursor_line = 7\<rparr>\<rparr>"

text \<open>\<open>b.md\<close> rewritten so that its line 0, \<open>TODO\<close>, is a structural heading of level 1
  (underlined on line 1) and is matched by the pattern \<^verbatim>\<open>^TODO$\<close> as well.\<close>

definition tie_world :: World where
  "tie_world =
     todo_world\<lparr>
       metadataCache := (metadataCache todo_world)
         (''notes/b.md'' :=
            Some \<lparr>headings = Some [\<lparr>heading = ''TODO'', heading_level = 1, position_start_line = 0\<rparr>]\<rparr>),
       vault := (vault todo_world)(''notes/b.md'' := Some (''TODO'' @ [CHR 0x0A] @ ''===='' ))\<rparr>"

text \<open>\<open>a.md\<close> with one structural heading of each level from 1 to 6 on lines 0 to 5 and the
  bold line on line 6, under settings in which only the flag of level 3 is on; and the
  index of the file then.\<close>

definition six_headings :: "HeadingCache list" where
  "six_headings =
     [\<lparr>heading = ''One'', heading_level = 1, position_start_line = 0\<rparr>,
      \<lparr>heading = ''Two'', heading_level = 2, position_start_line = 1\<rparr>,
      \<lparr>heading = ''Three'', heading_level = 3, position_start_line = 2\<rparr>,
      \<lparr>heading = ''Four'', heading_level = 4, position_start_line = 3\<rparr>,
      \<lparr>heading = ''Five'', heading_level = 5, position_start_line = 4\<rparr>,
      \<lparr>heading = ''Six'', heading_level = 6, position_start_line = 5\<rparr>]"

definition levels_world :: World where
  "levels_world =
     sample_world\<lparr>
       settings := DEFAULT_SETTINGS
         \<lparr>showHeading1 := False, showHeading2 := False, showHeading4 := False,
          showHeading5 := False, showHeading6 := False\<rparr>,
       metadataCache := (metadataCache sample_world)
         (''notes/a.md'' :=
            Some \<lparr>headings = Some six_headings\<rparr>),
       vault := (vault sample_world)
         (''notes/a.md'' :=
            Some (''# One'' @ [CHR 0x0A] @ ''## Two'' @ [CHR 0x0A] @ ''### Three'' @ [CHR 0x0A] @
                  ''#### Four'' @ [CHR 0x0A] @ ''##### Five'' @ [CHR 0x0A] @ ''###### Six'' @
                  [CHR 0x0A] @ ''**Important**''))\<rparr>"

definition drawn_index_levels :: "HeadingEntry list" where
  "drawn_index_levels =
     [\<lparr>entry_text = Some ''Three'', level = 3, line = 2, uiElement = Some 3\<rparr>,
      \<lparr>entry_text = Some ''Important'', level = 7, line = 6, uiElement = Some 4\<rparr>]"


text \<open>The sample vault after \<open>a.md\<close> was indexed and drawn.\<close>

definition drawn_world :: World where
  "drawn_world = snd (createHeadingsForFile sample_RegExp file_a sample_world)"

section \<open>Properties of the cursor locator\<close>

lemma findClosest_loop_correct:
  assumes "sorted (map line S)"
    and "0 \<le> start" and "start \<le> endIdx + 1" and "endIdx < int (length S)"
    and "\<forall>i. i < nat start \<longrightarrow> line (S ! i) < t"
    and "\<forall>i. nat (endIdx + 1) \<le> i \<and> i < length S \<longrightarrow> t < line (S ! i)"
    and "if start = 0 then best = None else best = Some (S ! nat (start - 1))"
  shows "\<exists>r. findClosest_loop S t start endIdx best = Inr r \<and> nearest_on_or_above S t r"
  using assms
proof (induction S t start endIdx best rule: findClosest_loop.induct)
  case (1 S t start endIdx best)
  show ?case
  proof (cases "start \<le> endIdx")
    case False
    with "1.prems" have eq: "endIdx + 1 = start" by simp
    have res: "findClosest_loop S t start endIdx best = Inr best"
      using False by (simp del: findClosest_loop.simps add: findClosest_loop.simps [of S t start endIdx best])
    have split: "\<And>i. i < length S \<Longrightarrow> (i < nat start \<and> line (S ! i) < t) \<or> (nat start \<le> i \<and> t < line (S ! i))"
      using "1.prems"(5,6) eq by (metis not_le_imp_less)
    show ?thesis
    proof (cases "start = 0")
      case True
      then have "best = None" using "1.prems"(7) by simp
      moreover have "list_all (\<lambda>e. t < line e) S"
        unfolding list_all_length using split True by fastforce
      ultimately show ?thesis using res by (simp add: nearest_on_or_above_def)
    next
      case ne: False
      then have b: "best = Some (S ! nat (start - 1))" using "1.prems"(7) by simp
      have pos: "0 < start" using ne "1.prems"(2) by simp
      have inb: "nat (start - 1) < length S" using pos eq "1.prems"(4) by linarith
      have le: "line (S ! nat (start - 1)) \<le> t"
        using "1.prems"(5) pos by (simp add: less_imp_le nat_less_iff)
      have "list_all (\<lambda>e'. line e' \<le> t \<longrightarrow> line e' \<le> line (S ! nat (start - 1))) S"
        unfolding list_all_length
      proof (intro allI impI)
        fix i assume i: "i < length S" and lt: "line (S ! i) \<le> t"
        from split [OF i] lt have "i < nat start" by auto
        then have "i \<le> nat (start - 1)" using pos by linarith
        then have "map line S ! i \<le> map line S ! nat (start - 1)"
          using "1.prems"(1) inb by (simp add: sorted_iff_nth_mono del: nth_map)
        then show "line (S ! i) \<le> line (S ! nat (start - 1))" using i inb by simp
      qed
      then show ?thesis using res b inb le by (simp add: nearest_on_or_above_def)
    qed
  next
    case True
    define mid where "mid = (start + endIdx) div 2"
    have mid_lo: "start \<le> mid" and mid_hi: "mid \<le> endIdx"
      using True by (simp_all add: mid_def)
    have mid_in: "\<not> (mid < 0 \<or> int (length S) \<le> mid)"
      using mid_lo mid_hi "1.prems"(2,4) by linarith
    have nmid: "nat mid < length S" using mid_in by linarith
    show ?thesis
    proof (cases "line (S ! nat mid) = t")
      case eq: True
      have res: "findClosest_loop S t start endIdx best = Inr (Some (S ! nat mid))"
        using True mid_in eq
        by (simp del: findClosest_loop.simps
            add: findClosest_loop.simps [of S t start endIdx best] mid_def Let_def)
      have "list_all (\<lambda>e'. line e' \<le> t \<longrightarrow> line e' \<le> line (S ! nat mid)) S"
        using eq by (simp add: list_all_iff)
      then show ?thesis using res nmid eq by (simp add: nearest_on_or_above_def)
    next
      case neq: False
      show ?thesis
      proof (cases "line (S ! nat mid) < t")
        case lt: True
        have res: "findClosest_loop S t start endIdx best
                   = findClosest_loop S t (mid + 1) endIdx (Some (S ! nat mid))"
          using True mid_in neq lt
          by (simp del: findClosest_loop.simps
              add: findClosest_loop.simps [of S t start endIdx best] mid_def Let_def)
        have below: "\<forall>i. i < nat (mid + 1) \<longrightarrow> line (S ! i) < t"
        proof (intro allI impI)
          fix i assume "i < nat (mid + 1)"
          then have i: "i \<le> nat mid" using mid_lo "1.prems"(2) by linarith
          then have "map line S ! i \<le> map line S ! nat mid"
            using "1.prems"(1) nmid by (simp add: sorted_iff_nth_mono del: nth_map)
          then have "line (S ! i) \<le> line (S ! nat mid)" using i nmid by simp
          then show "line (S ! i) < t" using lt by simp
        qed
        have best': "if mid + 1 = 0 then Some (S ! nat mid) = None
                     else Some (S ! nat mid) = Some (S ! nat (mid + 1 - 1))"
          using mid_lo "1.prems"(2) by simp
        have "\<exists>r. findClosest_loop S t (mid + 1) endIdx (Some (S ! nat mid)) = Inr r
                  \<and> nearest_on_or_above S t r"
          using "1.IH"(1) [OF True mid_def mid_in refl neq lt "1.prems"(1) _ _ "1.prems"(4) below "1.prems"(6) best']
            mid_lo mid_hi "1.prems"(2) by simp
        then show ?thesis using res by simp
      next
        case gt: False
        then have gt': "t < line (S ! nat mid)" using neq by simp
        have res: "findClosest_loop S t start endIdx best
                   = findClosest_loop S t start (mid - 1) best"
          using True mid_in neq gt
          by (simp del: findClosest_loop.simps
              add: findClosest_loop.simps [of S t start endIdx best] mid_def Let_def)
        have above: "\<forall>i. nat (mid - 1 + 1) \<le> i \<and> i < length S \<longrightarrow> t < line (S ! i)"
        proof (intro allI impI)
          fix i assume "nat (mid - 1 + 1) \<le> i \<and> i < length S"
          then have i: "nat mid \<le> i" "i < length S" by simp_all
          then have "map line S ! nat mid \<le> map line S ! i"
            using "1.prems"(1) by (simp add: sorted_iff_nth_mono del: nth_map)
          then have "line (S ! nat mid) \<le> line (S ! i)" using i nmid by simp
          then show "t < line (S ! i)" using gt' by simp
        qed
        have "\<exists>r. findClosest_loop S t start (mid - 1) best = Inr r \<and> nearest_on_or_above S t r"
          using "1.IH"(2) [OF True mid_def mid_in refl neq gt "1.prems"(1,2) _ _ "1.prems"(5) above "1.prems"(7)]
            mid_lo mid_hi "1.prems"(4) by simp
        then show ?thesis using res by simp
      qed
    qed
  qed
qed

lemma findClosestLineOnOrAbove_correct:
  assumes "sorted (map line S)"
  shows "\<exists>r. findClosestLineOnOrAbove (Some S) t = Inr r \<and> nearest_on_or_above S t r"
proof (cases "S = []")
  case True
  then show ?thesis
    by (simp add: findClosestLineOnOrAbove_def nearest_on_or_above_def)
next
  case False
  have "\<exists>r. findClosest_loop S t 0 (int (length S) - 1) None = Inr r \<and> nearest_on_or_above S t r"
    by (rule findClosest_loop_correct [OF assms]) simp_all
  then show ?thesis using False by (simp add: findClosestLineOnOrAbove_def)
qed

section \<open>Properties of the index builder\<close>

lemma level_hidden_iff: "level_hidden s h \<longleftrightarrow> \<not> visibility_flag s (heading_level h)"
  by (auto simp: level_hidden_def visibility_flag_def)

lemma headings_reduce_eq:
  "headings_reduce s acc hs = acc @ map entry_of_heading (filter (\<lambda>h. \<not> level_hidden s h) hs)"
  by (induction hs arbitrary: acc) simp_all

lemma mappedHeadings_eq:
  "mappedHeadings s fileCache =
     map entry_of_heading (filter (\<lambda>h. visibility_flag s (heading_level h)) (headings_of fileCache))"
  by (simp add: mappedHeadings_def headings_reduce_eq level_hidden_iff headings_of_def)

lemma mappedHeadings_no_ui: "e \<in> set (mappedHeadings s fileCache) \<Longrightarrow> uiElement e = None"
  by (auto simp: mappedHeadings_eq entry_of_heading_def)

lemma match_line_no_ui:
  "match_line R ln i r = Inr es \<Longrightarrow> e \<in> set es \<Longrightarrow> uiElement e = None"
  by (auto simp: match_line_def split: sum.splits option.splits if_splits)

lemma regexArray_forEach_no_ui:
  "regexArray_forEach R ln i rs = Inr es \<Longrightarrow> e \<in> set es \<Longrightarrow> uiElement e = None"
proof (induction rs arbitrary: es)
  case Nil
  then show ?case by simp
next
  case (Cons r rs)
  then show ?case
    by (auto split: sum.splits dest: match_line_no_ui)
qed

lemma fileLines_forEach_no_ui:
  "fileLines_forEach R rs i lns = Inr es \<Longrightarrow> e \<in> set es \<Longrightarrow> uiElement e = None"
proof (induction lns arbitrary: es i)
  case Nil
  then show ?case by simp
next
  case (Cons ln lns)
  then show ?case
    by (auto split: sum.splits dest: regexArray_forEach_no_ui)
qed

lemma matchedHeadings_no_ui:
  "matchedHeadings R s c = Inr es \<Longrightarrow> e \<in> set es \<Longrightarrow> uiElement e = None"
  unfolding matchedHeadings_def by (rule fileLines_forEach_no_ui)

lemma without_uiElement_id: "\<forall>e\<in>set es. uiElement e = None \<Longrightarrow> map without_uiElement es = es"
  by (induction es) (simp_all add: without_uiElement_def)

lemma headings_forEach_entries:
  "headings_forEach p m hs n item = (hs', n', item') \<Longrightarrow> map without_uiElement hs' = map without_uiElement hs"
proof (induction hs arbitrary: n item hs' n' item')
  case Nil
  then show ?case by simp
next
  case (Cons h hs)
  then show ?case
    by (auto simp: without_uiElement_def split: prod.splits)
qed

lemma createClickableHeadings_entries:
  "createClickableHeadings file hs w = (Inr hs', w') \<Longrightarrow> map without_uiElement hs' = map without_uiElement hs"
  by (auto simp: createClickableHeadings_def split: if_splits sum.splits option.splits prod.splits
      dest: headings_forEach_entries)

lemma createHeadingsForFile_index:
  assumes "createHeadingsForFile R file w = (Inr (Some idx), w')"
  shows "\<exists>fileCache matched.
           metadataCache w (path file) = Some fileCache \<and>
           pattern_entries R file w = Inr matched \<and>
           map without_uiElement idx = sort_key line (mappedHeadings (settings w) fileCache @ matched)"
proof -
  from assms obtain fileCache where fc: "metadataCache w (path file) = Some fileCache"
    by (auto simp: createHeadingsForFile_def split: option.splits)
  show ?thesis
  proof (cases "length (regexArray (settings w)) = 0")
    case True
    with assms fc obtain drawn where
      d: "createClickableHeadings file (sort_key line (mappedHeadings (settings w) fileCache)) w = (Inr idx, w')"
      by (auto simp: createHeadingsForFile_def split: prod.splits sum.splits)
    have "map without_uiElement idx
          = map without_uiElement (sort_key line (mappedHeadings (settings w) fileCache))"
      by (rule createClickableHeadings_entries [OF d])
    also have "\<dots> = sort_key line (mappedHeadings (settings w) fileCache)"
      by (rule without_uiElement_id) (auto dest: mappedHeadings_no_ui)
    finally show ?thesis using fc True by (simp add: pattern_entries_def)
  next
    case False
    with assms fc obtain fileContent matched where
      v: "vault w (path file) = Some fileContent"
      and m: "matchedHeadings R (settings w) fileContent = Inr matched"
      and d: "createClickableHeadings file
                (sort_key line (mappedHeadings (settings w) fileCache @ matched)) w = (Inr idx, w')"
      by (auto simp: createHeadingsForFile_def split: prod.splits sum.splits option.splits)
    have "map without_uiElement idx
          = map without_uiElement (sort_key line (mappedHeadings (settings w) fileCache @ matched))"
      by (rule createClickableHeadings_entries [OF d])
    also have "\<dots> = sort_key line (mappedHeadings (settings w) fileCache @ matched)"
      by (rule without_uiElement_id) (auto dest: mappedHeadings_no_ui matchedHeadings_no_ui [OF m])
    finally show ?thesis using fc False v m by (simp add: pattern_entries_def)
  qed
qed

lemma line_without_uiElement: "map line (map without_uiElement es) = map line es"
  by (simp add: without_uiElement_def)

text \<open>A structural heading and a pattern match on the same line: the structural entry
  comes first.\<close>

lemma tie_sample:
  "fst (createHeadingsForFile sample_RegExp file_b tie_world) =
     Inr (Some [\<lparr>entry_text = Some ''TODO'', level = 1, line = 0, uiElement = Some 3\<rparr>,
                \<lparr>entry_text = None, level = 7, line = 0, uiElement = Some 4\<rparr>])"
  by code_simp

section \<open>Properties of the rebuild loop\<close>





lemma createHeadingsForFile_no_cache:
  "metadataCache w (path file) = None \<Longrightarrow> createHeadingsForFile R file w = (Inr None, w)"
  by (simp add: createHeadingsForFile_def)









lemma split_lines_not_Nil: "split_lines c \<noteq> []"
  by (induction c) (simp_all split: list.splits)

lemma regexArray_forEach_malformed:
  "rs \<in> set rss \<Longrightarrow> R (pattern rs) = Inl e \<Longrightarrow> \<exists>e'. regexArray_forEach R ln i rss = Inl e'"
proof (induction rss)
  case Nil
  then show ?case by simp
next
  case (Cons r rss)
  show ?case
  proof (cases "match_line R ln i r")
    case (Inl e')
    then show ?thesis by simp
  next
    case (Inr pushed)
    then have "r \<noteq> rs" using Cons.prems(2) by (auto simp: match_line_def)
    with Cons have "\<exists>e'. regexArray_forEach R ln i rss = Inl e'" by simp
    then show ?thesis using Inr by auto
  qed
qed

lemma fileLines_forEach_malformed:
  assumes "rs \<in> set rss" and "R (pattern rs) = Inl e" and "lns \<noteq> []"
  shows "\<exists>e'. fileLines_forEach R rss i lns = Inl e'"
proof -
  from assms(3) obtain ln rest where l: "lns = ln # rest" by (cases lns) auto
  from regexArray_forEach_malformed [of rs rss R e ln i] assms(1,2)
  obtain e' where "regexArray_forEach R ln i rss = Inl e'" by blast
  then show ?thesis using l by simp
qed

lemma createHeadingsForFile_malformed:
  assumes "rs \<in> set (regexArray (settings w))" and "newRegExp (pattern rs) = Inl e"
    and "metadataCache w (path file) = Some fileCache"
  shows "\<exists>e'. createHeadingsForFile newRegExp file w = (Inl e', w)"
proof -
  from assms(1) have ne: "length (regexArray (settings w)) \<noteq> 0" by auto
  show ?thesis
  proof (cases "vault w (path file)")
    case None
    then show ?thesis using assms(3) ne by (simp add: createHeadingsForFile_def)
  next
    case (Some fileContent)
    from fileLines_forEach_malformed [of rs "regexArray (settings w)" newRegExp e "split_lines fileContent" 0]
      assms(1,2) split_lines_not_Nil [of fileContent]
    obtain e' where "matchedHeadings newRegExp (settings w) fileContent = Inl e'"
      unfolding matchedHeadings_def by blast
    then show ?thesis using assms(3) ne Some by (simp add: createHeadingsForFile_def)
  qed
qed

section \<open>Properties of the pattern matcher and of the highlight request\<close>

lemma match_line_no_match:
  "newRegExp (pattern rs) = Inr regex \<Longrightarrow> regex ln = None \<Longrightarrow> match_line newRegExp ln i rs = Inr []"
  by (simp add: match_line_def)

lemma match_line_match:
  "newRegExp (pattern rs) = Inr regex \<Longrightarrow> regex ln = Some matches \<Longrightarrow> matches \<noteq> [] \<Longrightarrow>
     match_line newRegExp ln i rs =
       Inr [\<lparr>entry_text = js_index matches 1, level = regex_level rs, line = i, uiElement = None\<rparr>]"
  by (cases matches) (simp_all add: match_line_def)

lemma match_line_Important:
  "match_line sample_RegExp ''**Important**'' i \<lparr>pattern = default_pattern, regex_level = 7\<rparr> =
     Inr [\<lparr>entry_text = Some ''Important'', level = 7, line = i, uiElement = None\<rparr>]"
  by (simp add: match_line_def sample_RegExp_def bold_line_def js_index_def)

lemma highlight_no_leaf:
  "lastActiveMarkdownLeaf w = None \<Longrightarrow> highlightFileWithHeading w = (None, w)"
  by (simp add: highlightFileWithHeading_def)

lemma highlight_no_file:
  "lastActiveMarkdownLeaf w = Some leaf \<Longrightarrow> view_file leaf = None \<Longrightarrow> highlightFileWithHeading w = (None, w)"
  by (simp add: highlightFileWithHeading_def)

lemma highlight_empty_index:
  "lastActiveMarkdownLeaf w = Some leaf \<Longrightarrow> view_file leaf = Some f \<Longrightarrow> cachedHeadings w (name f) = Some [] \<Longrightarrow>
     highlightFileWithHeading w = (None, w\<lparr>revealed := revealed w @ [path f]\<rparr>)"
  by (simp add: highlightFileWithHeading_def findClosestLineOnOrAbove_def)

lemma highlight_no_index_entry:
  "lastActiveMarkdownLeaf w = Some leaf \<Longrightarrow> view_file leaf = Some f \<Longrightarrow> cachedHeadings w (name f) = None \<Longrightarrow>
     highlightFileWithHeading w = (Some TypeError, w\<lparr>revealed := revealed w @ [path f]\<rparr>)"
  by (simp add: highlightFileWithHeading_def findClosestLineOnOrAbove_def)

text \<open>After a rebuild of the sample vault, with \<open>a.md\<close> focused and the cursor on line
  7, the request marks the node of the entry on line 5.\<close>

lemma highlight_sample:
  "fst (highlightFileWithHeading (snd (init sample_RegExp indexed_focused_world))) = None \<and>
   map_option (map classList)
     (drawn_nodes file_a (snd (highlightFileWithHeading (snd (init sample_RegExp indexed_focused_world)))))
     = Some [[heading_class, ''highlighted-heading''], [heading_class]]"
  by code_simp

section \<open>Properties of the redraw\<close>

lemma querySelector_list_class:
  "querySelector_list c es = Some e \<Longrightarrow> c \<in> set (classList e)"
  by (induction c es rule: querySelector_list.induct) (auto split: if_splits option.splits)

lemma querySelector_list_None_iff:
  "querySelector_list c es = None \<longleftrightarrow> count_class c es = 0"
  by (induction c es rule: querySelector_list.induct) (auto split: option.splits)

lemma querySelector_list_append:
  "querySelector_list c (es @ es') =
     (case querySelector_list c es of Some r \<Rightarrow> Some r | None \<Rightarrow> querySelector_list c es')"
  by (induction c es rule: querySelector_list.induct) (auto split: option.splits)

lemma count_class_append:
  "count_class c (es @ es') = count_class c es + count_class c es'"
  by (induction c es rule: count_class.induct) auto

lemma count_class_single:
  "count_class c [e] = (if c \<in> set (classList e) then 1 else 0) + count_class c (children e)"
  by (cases e) simp

lemma querySelector_update_first:
  "querySelector_list c es = Some e \<Longrightarrow> c \<in> set (classList (f e)) \<Longrightarrow>
     querySelector_list c (update_first c f es) = Some (f e)"
proof (induction c es rule: querySelector_list.induct)
  case (1 c)
  then show ?case by simp
next
  case (2 c u cl t m h cs es)
  show ?case
  proof (cases "c \<in> set cl")
    case True
    with "2.prems" show ?thesis by (cases "f (Element u cl t m h cs)") auto
  next
    case False
    show ?thesis
    proof (cases "querySelector_list c cs")
      case None
      with False "2.prems" "2.IH"(2) show ?thesis by simp
    next
      case (Some r)
      with False "2.prems" "2.IH"(1) show ?thesis by simp
    qed
  qed
qed

lemma count_update_first:
  "querySelector_list c es = Some e \<Longrightarrow>
     count_class c (update_first c f es) + count_class c [e] = count_class c es + count_class c [f e]"
proof (induction c es rule: querySelector_list.induct)
  case (1 c)
  then show ?case by simp
next
  case (2 c u cl t m h cs es)
  show ?case
  proof (cases "c \<in> set cl")
    case True
    with "2.prems" have e: "e = Element u cl t m h cs" by simp
    have "count_class c (f e # es) = count_class c [f e] + count_class c es"
      using count_class_append [of c "[f e]" es] by simp
    moreover have "count_class c (e # es) = count_class c [e] + count_class c es"
      using count_class_append [of c "[e]" es] by simp
    ultimately show ?thesis using True e by simp
  next
    case False
    show ?thesis
    proof (cases "querySelector_list c cs")
      case None
      with False "2.prems" "2.IH"(2) show ?thesis by simp
    next
      case (Some r)
      with False "2.prems" "2.IH"(1) show ?thesis by simp
    qed
  qed
qed


lemma replaceChildren_simps [simp]:
  "children (replaceChildren new e) = new"
  "classList (replaceChildren new e) = classList e"
  "replaceChildren new (replaceChildren new' e) = replaceChildren new e"
  by (simp_all add: replaceChildren_def)

lemma appendChild_simps [simp]:
  "children (appendChild child e) = children e @ [child]"
  "classList (appendChild child e) = classList e"
  by (simp_all add: appendChild_def)

lemma querySelector_in_headingContainer:
  "querySelector container_class item = Some c \<Longrightarrow> classList (f c) = classList c \<Longrightarrow>
     querySelector container_class (in_headingContainer f item) = Some (f c)"
  unfolding querySelector_def in_headingContainer_def
  using querySelector_update_first [of container_class "children item" c f]
    querySelector_list_class [of container_class "children item" c]
  by simp

lemma count_in_headingContainer:
  "querySelector container_class item = Some c \<Longrightarrow>
     count_class container_class (children (in_headingContainer f item)) + count_class container_class [c]
       = count_class container_class (children item) + count_class container_class [f c]"
  unfolding querySelector_def in_headingContainer_def
  using count_update_first [of container_class "children item" c f] by simp

lemma count_headingItem [simp]: "count_class container_class [headingItem p m n h] = 0"
  by (simp add: headingItem_def heading_class_def container_class_def)

lemma headings_forEach_draws:
  assumes "querySelector container_class item = Some c"
    and "headings_forEach p m hs n item = (hs', n', item')"
  shows "querySelector container_class item'
           = Some (replaceChildren (children c @ map2 (headingItem p m) [n..<n + length hs] hs) c) \<and>
         count_class container_class (children item') = count_class container_class (children item)"
  using assms
proof (induction hs arbitrary: n item c hs' n' item')
  case Nil
  then show ?case by (cases c) (simp add: replaceChildren_def)
next
  case (Cons h hs)
  let ?node = "headingItem p m n h"
  let ?item1 = "in_headingContainer (appendChild ?node) item"
  let ?c1 = "appendChild ?node c"
  have q1: "querySelector container_class ?item1 = Some ?c1"
    by (rule querySelector_in_headingContainer [OF Cons.prems(1)]) simp
  have "count_class container_class [?c1] = count_class container_class [c]"
    by (simp add: count_class_single count_class_append headingItem_def heading_class_def
        container_class_def)
  with count_in_headingContainer [OF Cons.prems(1), of "appendChild ?node"]
  have k1: "count_class container_class (children ?item1) = count_class container_class (children item)"
    by simp
  from Cons.prems(2) obtain hs1 where
    r: "headings_forEach p m hs (Suc n) ?item1 = (hs1, n', item')"
    by (auto split: prod.splits)
  from Cons.IH [OF q1 r]
  have q: "querySelector container_class item'
             = Some (replaceChildren (children ?c1 @ map2 (headingItem p m) [Suc n..<Suc n + length hs] hs) ?c1)"
    and k: "count_class container_class (children item') = count_class container_class (children ?item1)"
    by simp_all
  have "[n..<n + Suc (length hs)] = n # [Suc n..<n + Suc (length hs)]"
    by (rule upt_conv_Cons) simp
  then have "[n..<n + length (h # hs)] = n # [Suc n..<Suc n + length hs]"
    by simp
  then have "children c @ map2 (headingItem p m) [n..<n + length (h # hs)] (h # hs)
             = children ?c1 @ map2 (headingItem p m) [Suc n..<Suc n + length hs] hs"
    by simp
  then show ?case using q k k1 by (simp add: appendChild_def)
qed

lemma getHeadingContainer_found:
  assumes "getHeadingContainer item n = (item1, n1)"
  shows "\<exists>c. querySelector container_class item1 = Some c \<and>
             count_class container_class (children item1) =
               (if count_class container_class (children item) = 0 then 1
                else count_class container_class (children item))"
proof (cases "querySelector container_class item")
  case None
  then have z: "count_class container_class (children item) = 0"
    by (simp add: querySelector_def querySelector_list_None_iff)
  from None assms have i1: "item1 = appendChild (Element n [container_class] [] None None []) item"
    by (simp add: getHeadingContainer_def)
  have "querySelector container_class item1 = Some (Element n [container_class] [] None None [])"
    using None by (simp add: i1 querySelector_def querySelector_list_append)
  moreover have "count_class container_class (children item1) = 1"
    using z by (simp add: i1 count_class_append)
  ultimately show ?thesis using z by simp
next
  case (Some c)
  then have "count_class container_class (children item) \<noteq> 0"
    using querySelector_list_None_iff [of container_class "children item"]
    by (simp add: querySelector_def)
  moreover from Some assms have "item1 = item" by (simp add: getHeadingContainer_def)
  ultimately show ?thesis using Some by simp
qed

lemma redraw_item:
  assumes "getHeadingContainer item n = (item1, n1)"
    and "headings_forEach p m hs n1 (in_headingContainer (replaceChildren []) item1) = (hs', n', item')"
    and "count_class container_class (children item) \<le> 1"
  shows "(\<exists>c. querySelector container_class item' = Some c \<and>
              children c = map2 (headingItem p m) [n1..<n1 + length hs] hs) \<and>
         count_class container_class (children item') = 1"
proof -
  from getHeadingContainer_found [OF assms(1)] assms(3) obtain c where
    q1: "querySelector container_class item1 = Some c"
    and k1: "count_class container_class (children item1) = 1"
    by (auto split: if_splits)
  let ?item2 = "in_headingContainer (replaceChildren []) item1"
  have q2: "querySelector container_class ?item2 = Some (replaceChildren [] c)"
    by (rule querySelector_in_headingContainer [OF q1]) simp
  have cc: "container_class \<in> set (classList c)"
    using q1 querySelector_list_class [of container_class "children item1" c]
    by (simp add: querySelector_def)
  have "count_class container_class (children ?item2) + count_class container_class [c]
        = count_class container_class (children item1) + count_class container_class [replaceChildren [] c]"
    by (rule count_in_headingContainer [OF q1])
  moreover have "count_class container_class [replaceChildren [] c] = 1"
    using cc by (simp add: count_class_single)
  moreover have "1 \<le> count_class container_class [c]"
    using cc by (simp add: count_class_single)
  moreover have "count_class container_class (children ?item2) \<noteq> 0"
    using q2 querySelector_list_None_iff [of container_class "children ?item2"]
    by (simp add: querySelector_def)
  ultimately have k2: "count_class container_class (children ?item2) = 1"
    using k1 by linarith
  from headings_forEach_draws [OF q2 assms(2)] k2 show ?thesis by simp
qed

lemma createClickableHeadings_no_explorer:
  "hs \<noteq> [] \<Longrightarrow> fileExplorer w = None \<Longrightarrow>
     createClickableHeadings file hs w = (Inl (Error ''Could not find file explorer leaf.''), w)"
  by (simp add: createClickableHeadings_def getFileExplorerFileItems_def)

lemma createClickableHeadings_no_tree_entry:
  "hs \<noteq> [] \<Longrightarrow> fileExplorer w = Some fileItems \<Longrightarrow> fileItems (path file) = None \<Longrightarrow>
     createClickableHeadings file hs w = (Inl TypeError, w)"
  by (simp add: createClickableHeadings_def getFileExplorerFileItems_def)

lemma visible_headings_drawn:
  "visible_headings file w = map_option (map (\<lambda>e. (textContent e, marginLeft e))) (drawn_nodes file w)"
  by (simp add: visible_headings_def drawn_nodes_def option.map_comp comp_def split: option.splits)

lemma view_headingItems:
  "length ns = length hs \<Longrightarrow>
     map (\<lambda>e. (textContent e, marginLeft e)) (map2 (headingItem p m) ns hs) = map (heading_view m) hs"
  by (induction ns hs rule: list_induct2) (simp_all add: headingItem_def heading_view_def)

lemma redraw_once:
  assumes "hs \<noteq> []" and "fileExplorer w = Some fileItems" and "fileItems (path file) = Some fileItem"
    and "count_class container_class (children (innerEl fileItem)) \<le> 1"
  shows "\<exists>hs' w' n. createClickableHeadings file hs w = (Inr hs', w') \<and>
           container_count file w' = Some 1 \<and>
           drawn_nodes file w' = Some (map2 (headingItem (path file) (getMarginMultiplier w)) [n..<n + length hs] hs) \<and>
           getMarginMultiplier w' = getMarginMultiplier w"
proof -
  obtain item1 n1 where g: "getHeadingContainer (innerEl fileItem) (nextUid w) = (item1, n1)"
    by (cases "getHeadingContainer (innerEl fileItem) (nextUid w)")
  obtain hs' n' item' where
    f: "headings_forEach (path file) (getMarginMultiplier w) hs n1
          (in_headingContainer (replaceChildren []) item1) = (hs', n', item')"
    by (cases "headings_forEach (path file) (getMarginMultiplier w) hs n1
          (in_headingContainer (replaceChildren []) item1)")
  let ?w' = "w\<lparr>fileExplorer := Some (fileItems(path file := Some (fileItem\<lparr>innerEl := item'\<rparr>))),
               nextUid := n'\<rparr>"
  have c: "createClickableHeadings file hs w = (Inr hs', ?w')"
    using assms(1-3) g f by (simp add: createClickableHeadings_def getFileExplorerFileItems_def)
  from redraw_item [OF g f assms(4)] obtain c where
    q: "querySelector container_class item' = Some c"
    and ch: "children c = map2 (headingItem (path file) (getMarginMultiplier w)) [n1..<n1 + length hs] hs"
    and k: "count_class container_class (children item') = 1"
    by blast
  have "container_count file ?w' = Some 1" using k by (simp add: container_count_def)
  moreover have "drawn_nodes file ?w'
      = Some (map2 (headingItem (path file) (getMarginMultiplier w)) [n1..<n1 + length hs] hs)"
    using q ch by (simp add: drawn_nodes_def)
  moreover have "getMarginMultiplier ?w' = getMarginMultiplier w"
    by (simp add: getMarginMultiplier_def)
  ultimately show ?thesis using c by blast
qed


lemma heading_view_without_uiElement:
  "map without_uiElement hs2 = map without_uiElement hs \<Longrightarrow> map (heading_view m) hs2 = map (heading_view m) hs"
proof -
  assume a: "map without_uiElement hs2 = map without_uiElement hs"
  have "map (heading_view m) hs2 = map (heading_view m) (map without_uiElement hs2)"
    by (simp add: heading_view_def without_uiElement_def)
  also have "\<dots> = map (heading_view m) (map without_uiElement hs)" using a by simp
  also have "\<dots> = map (heading_view m) hs"
    by (simp add: heading_view_def without_uiElement_def)
  finally show ?thesis .
qed

lemma redraw_visible:
  assumes "hs \<noteq> []" and "fileExplorer w = Some fileItems" and "fileItems (path file) = Some fileItem"
    and "count_class container_class (children (innerEl fileItem)) \<le> 1"
  shows "\<exists>hs' w' n. createClickableHeadings file hs w = (Inr hs', w') \<and>
           container_count file w' = Some 1 \<and>
           drawn_nodes file w' = Some (map2 (headingItem (path file) (getMarginMultiplier w)) [n..<n + length hs] hs) \<and>
           visible_headings file w' = Some (map (heading_view (getMarginMultiplier w)) hs) \<and>
           getMarginMultiplier w' = getMarginMultiplier w"
proof -
  from redraw_once [OF assms] obtain hs' w' n where
    c: "createClickableHeadings file hs w = (Inr hs', w')"
    and k: "container_count file w' = Some 1"
    and d: "drawn_nodes file w' = Some (map2 (headingItem (path file) (getMarginMultiplier w)) [n..<n + length hs] hs)"
    and m: "getMarginMultiplier w' = getMarginMultiplier w"
    by blast
  have "map (\<lambda>e. (textContent e, marginLeft e))
          (map2 (headingItem (path file) (getMarginMultiplier w)) [n..<n + length hs] hs)
        = map (heading_view (getMarginMultiplier w)) hs"
    by (rule view_headingItems) simp
  then have "visible_headings file w' = Some (map (heading_view (getMarginMultiplier w)) hs)"
    using d by (simp only: visible_headings_drawn option.map)
  with c k d m show ?thesis by blast
qed

section \<open>Claims about the cursor locator\<close>

text \<open>
  C1. For every sequence of entries sorted ascending by line and every target line \<open>t\<close>,
  \<open>findClosestLineOnOrAbove\<close> returns normally; what it returns is an entry of the
  sequence whose line is at most \<open>t\<close> and is the greatest such line in the sequence, and it
  returns nothing only if the sequence is empty or every entry's line exceeds \<open>t\<close>.
\<close>

theorem findClosestLineOnOrAbove_nearest:
  assumes "sorted (map line S)"
  shows "\<exists>r. findClosestLineOnOrAbove (Some S) t = Inr r \<and>
           (r = None \<longleftrightarrow> S = [] \<or> (\<forall>e\<in>set S. t < line e)) \<and>
           (\<forall>e. r = Some e \<longrightarrow>
                e \<in> set S \<and> line e \<le> t \<and> (\<forall>e'\<in>set S. line e' \<le> t \<longrightarrow> line e' \<le> line e))"
proof -
  from findClosestLineOnOrAbove_correct [OF assms, of t]
  obtain r where r: "findClosestLineOnOrAbove (Some S) t = Inr r" and n: "nearest_on_or_above S t r"
    by blast
  have a: "r = None \<longleftrightarrow> S = [] \<or> (\<forall>e\<in>set S. t < line e)"
  proof (cases r)
    case None
    with n show ?thesis by (simp add: nearest_on_or_above_def list_all_iff)
  next
    case (Some e)
    with n have "e \<in> set S" and "\<not> t < line e"
      by (simp_all add: nearest_on_or_above_def)
    then have "S \<noteq> []" and "\<not> (\<forall>e\<in>set S. t < line e)" by auto
    with Some show ?thesis by simp
  qed
  from n have b: "\<forall>e. r = Some e \<longrightarrow>
                e \<in> set S \<and> line e \<le> t \<and> (\<forall>e'\<in>set S. line e' \<le> t \<longrightarrow> line e' \<le> line e)"
    by (cases r) (simp_all add: nearest_on_or_above_def list_all_iff)
  from r a b show ?thesis by blast
qed

text \<open>On the sample index the target 7 gives the entry of line 5, and below the first
  line nothing is returned.\<close>

theorem findClosestLineOnOrAbove_nearest_witness:
  "sorted (map line sample_index) \<and>
   findClosestLineOnOrAbove (Some sample_index) 7 =
     Inr (Some \<lparr>entry_text = Some ''Important'', level = 7, line = 5, uiElement = None\<rparr>) \<and>
   sorted (map line (tl sample_index)) \<and>
   findClosestLineOnOrAbove (Some (tl sample_index)) 3 = Inr None"
proof -
  have h: "sorted (map line sample_index)" by (simp add: sample_index_def)
  have h': "sorted (map line (tl sample_index))" by (simp add: sample_index_def)
  from findClosestLineOnOrAbove_nearest [OF h, of 7]
  obtain r where r: "findClosestLineOnOrAbove (Some sample_index) 7 = Inr r"
    and n: "r = None \<longleftrightarrow> sample_index = [] \<or> (\<forall>e\<in>set sample_index. 7 < line e)"
    and p: "\<forall>e. r = Some e \<longrightarrow> e \<in> set sample_index \<and> line e \<le> 7 \<and>
                (\<forall>e'\<in>set sample_index. line e' \<le> 7 \<longrightarrow> line e' \<le> line e)"
    by blast
  from n have "r \<noteq> None" by (simp add: sample_index_def)
  then obtain e where e: "r = Some e" by auto
  with p have "e \<in> set sample_index \<and> line e \<le> 7 \<and>
                (\<forall>e'\<in>set sample_index. line e' \<le> 7 \<longrightarrow> line e' \<le> line e)"
    by blast
  then have "e = \<lparr>entry_text = Some ''Important'', level = 7, line = 5, uiElement = None\<rparr>"
    by (auto simp: sample_index_def)
  with r e have a: "findClosestLineOnOrAbove (Some sample_index) 7 =
     Inr (Some \<lparr>entry_text = Some ''Important'', level = 7, line = 5, uiElement = None\<rparr>)"
    by simp
  from findClosestLineOnOrAbove_nearest [OF h', of 3]
  obtain r' where r': "findClosestLineOnOrAbove (Some (tl sample_index)) 3 = Inr r'"
    and n': "r' = None \<longleftrightarrow> tl sample_index = [] \<or> (\<forall>e\<in>set (tl sample_index). 3 < line e)"
    by blast
  from n' have "r' = None" by (simp add: sample_index_def)
  with r' have b: "findClosestLineOnOrAbove (Some (tl sample_index)) 3 = Inr None"
    by simp
  from h a h' b show ?thesis by simp
qed

text \<open>
  C8. For every sorted sequence and targets \<open>t1 \<le> t2\<close>, both searches return normally; if
  the search for \<open>t1\<close> yields an entry then so does the search for \<open>t2\<close>, and the line of the
  first is at most the line of the second.
\<close>

theorem findClosestLineOnOrAbove_monotonic:
  assumes "sorted (map line S)" and "t1 \<le> t2"
  shows "\<exists>r1 r2. findClosestLineOnOrAbove (Some S) t1 = Inr r1 \<and>
                 findClosestLineOnOrAbove (Some S) t2 = Inr r2 \<and>
           (case r1 of
              None \<Rightarrow> True
            | Some e1 \<Rightarrow> (case r2 of None \<Rightarrow> False | Some e2 \<Rightarrow> line e1 \<le> line e2))"
proof -
  from findClosestLineOnOrAbove_correct [OF assms(1), of t1]
  obtain r1 where r1: "findClosestLineOnOrAbove (Some S) t1 = Inr r1" and n1: "nearest_on_or_above S t1 r1"
    by blast
  from findClosestLineOnOrAbove_correct [OF assms(1), of t2]
  obtain r2 where r2: "findClosestLineOnOrAbove (Some S) t2 = Inr r2" and n2: "nearest_on_or_above S t2 r2"
    by blast
  have "case r1 of
              None \<Rightarrow> True
            | Some e1 \<Rightarrow> (case r2 of None \<Rightarrow> False | Some e2 \<Rightarrow> line e1 \<le> line e2)"
  proof (cases r1)
    case None
    then show ?thesis by simp
  next
    case (Some e1)
    with n1 have e1: "e1 \<in> set S" "line e1 \<le> t1"
      by (simp_all add: nearest_on_or_above_def)
    then have le2: "line e1 \<le> t2" using assms(2) by simp
    show ?thesis
    proof (cases r2)
      case None
      with n2 have "t2 < line e1" using e1(1) by (simp add: nearest_on_or_above_def list_all_iff)
      with le2 show ?thesis by simp
    next
      case (Some e2)
      with n2 have "line e1 \<le> line e2" using e1(1) le2
        by (simp add: nearest_on_or_above_def list_all_iff)
      then show ?thesis using Some \<open>r1 = Some e1\<close> by simp
    qed
  qed
  with r1 r2 show ?thesis by blast
qed

text \<open>The targets 3 and 12 on the sample index.\<close>

theorem findClosestLineOnOrAbove_monotonic_witness:
  "sorted (map line sample_index) \<and> (3::int) \<le> 12 \<and>
   (\<exists>r1 r2. findClosestLineOnOrAbove (Some sample_index) 3 = Inr r1 \<and>
            findClosestLineOnOrAbove (Some sample_index) 12 = Inr r2 \<and>
            (case r1 of
               None \<Rightarrow> True
             | Some e1 \<Rightarrow> (case r2 of None \<Rightarrow> False | Some e2 \<Rightarrow> line e1 \<le> line e2)))"
proof -
  have h: "sorted (map line sample_index)" by (simp add: sample_index_def)
  have le: "(3::int) \<le> 12" by simp
  from h le findClosestLineOnOrAbove_monotonic [OF h le] show ?thesis by blast
qed

section \<open>Claims about the index builder\<close>

text \<open>
  C5. Every sequence that \<open>createHeadingsForFile\<close> returns is sorted ascending by line.
  Among the entries of one line, those from structural headings come first, in the
  order of the host's list, and those from pattern matches follow, in the order in which
  they were matched; all of them are kept.
\<close>

theorem createHeadingsForFile_sorted_stable:
  assumes "createHeadingsForFile newRegExp file w = (Inr (Some idx), w')"
  shows "sorted (map line idx) \<and>
         (\<exists>fileCache matched.
            metadataCache w (path file) = Some fileCache \<and>
            pattern_entries newRegExp file w = Inr matched \<and>
            (\<forall>n. [e \<leftarrow> map without_uiElement idx. line e = n] =
                 [e \<leftarrow> mappedHeadings (settings w) fileCache. line e = n] @ [e \<leftarrow> matched. line e = n]))"
proof -
  from createHeadingsForFile_index [OF assms] obtain fileCache matched where
    fc: "metadataCache w (path file) = Some fileCache"
    and pe: "pattern_entries newRegExp file w = Inr matched"
    and eq: "map without_uiElement idx = sort_key line (mappedHeadings (settings w) fileCache @ matched)"
    by blast
  have "sorted (map line (map without_uiElement idx))"
    unfolding eq by (rule sorted_sort_key)
  then have s: "sorted (map line idx)" by (simp only: line_without_uiElement)
  have "\<forall>n. [e \<leftarrow> map without_uiElement idx. line e = n] =
                 [e \<leftarrow> mappedHeadings (settings w) fileCache. line e = n] @ [e \<leftarrow> matched. line e = n]"
    unfolding eq by (simp add: sort_key_stable)
  with s fc pe show ?thesis by blast
qed

text \<open>The structural heading on line 10 and the pattern match on line 5 of \<open>a.md\<close> give
  the index of line 5, then line 10.\<close>

theorem createHeadingsForFile_sorted_stable_witness:
  "createHeadingsForFile sample_RegExp file_a sample_world =
     (Inr (Some drawn_index_a), snd (createHeadingsForFile sample_RegExp file_a sample_world)) \<and>
   sorted (map line drawn_index_a) \<and>
   (\<exists>fileCache matched.
      metadataCache sample_world (path file_a) = Some fileCache \<and>
      pattern_entries sample_RegExp file_a sample_world = Inr matched \<and>
      (\<forall>n. [e \<leftarrow> map without_uiElement drawn_index_a. line e = n] =
           [e \<leftarrow> mappedHeadings (settings sample_world) fileCache. line e = n] @ [e \<leftarrow> matched. line e = n]))"
proof -
  have "fst (createHeadingsForFile sample_RegExp file_a sample_world) = Inr (Some drawn_index_a)"
    by code_simp
  then have h: "createHeadingsForFile sample_RegExp file_a sample_world =
     (Inr (Some drawn_index_a), snd (createHeadingsForFile sample_RegExp file_a sample_world))"
    by (simp add: prod_eq_iff)
  from h createHeadingsForFile_sorted_stable [OF h] show ?thesis by blast
qed

text \<open>
  C6. Let the host's list for the file be given. The index that \<open>createHeadingsForFile\<close>
  returns consists of a structural part and of all pattern entries. The structural part
  has one entry, with the heading's text, level and line, for each heading of the host's
  list whose level has its visibility flag on; so for a heading of a level from 1 to 6
  the structural part contains its entry if and only if the flag of that level is on.
  The pattern entries are the same under any settings with the same pattern list,
  whatever the flags.
\<close>

theorem createHeadingsForFile_level_filter:
  assumes "createHeadingsForFile newRegExp file w = (Inr (Some idx), w')"
  shows "\<exists>fileCache hostHeadings structural matched.
           metadataCache w (path file) = Some fileCache \<and>
           hostHeadings = (case headings fileCache of None \<Rightarrow> [] | Some hs \<Rightarrow> hs) \<and>
           structural =
             map (\<lambda>h. \<lparr>entry_text = Some (heading h), level = heading_level h,
                        line = position_start_line h, uiElement = None\<rparr>)
               [h \<leftarrow> hostHeadings. visibility_flag (settings w) (heading_level h)] \<and>
           pattern_entries newRegExp file w = Inr matched \<and>
           mset (map without_uiElement idx) = mset structural + mset matched \<and>
           (\<forall>h\<in>set hostHeadings. 1 \<le> heading_level h \<and> heading_level h \<le> 6 \<longrightarrow>
              (\<lparr>entry_text = Some (heading h), level = heading_level h,
                line = position_start_line h, uiElement = None\<rparr> \<in> set structural
               \<longleftrightarrow> visibility_flag (settings w) (heading_level h))) \<and>
           (\<forall>s'. regexArray s' = regexArray (settings w) \<longrightarrow>
                  pattern_entries newRegExp file (w\<lparr>settings := s'\<rparr>) = Inr matched)"
proof -
  from createHeadingsForFile_index [OF assms] obtain fileCache matched where
    fc: "metadataCache w (path file) = Some fileCache"
    and pe: "pattern_entries newRegExp file w = Inr matched"
    and eq: "map without_uiElement idx = sort_key line (mappedHeadings (settings w) fileCache @ matched)"
    by blast
  define hostHeadings where "hostHeadings = (case headings fileCache of None \<Rightarrow> [] | Some hs \<Rightarrow> hs)"
  define structural where "structural =
             map (\<lambda>h. \<lparr>entry_text = Some (heading h), level = heading_level h,
                        line = position_start_line h, uiElement = None\<rparr>)
               [h \<leftarrow> hostHeadings. visibility_flag (settings w) (heading_level h)]"
  have st: "mappedHeadings (settings w) fileCache = structural"
    by (simp add: mappedHeadings_eq structural_def hostHeadings_def headings_of_def
        entry_of_heading_def)
  have m: "mset (map without_uiElement idx) = mset structural + mset matched"
    unfolding eq st by simp
  have iff: "\<forall>h\<in>set hostHeadings. 1 \<le> heading_level h \<and> heading_level h \<le> 6 \<longrightarrow>
              (\<lparr>entry_text = Some (heading h), level = heading_level h,
                line = position_start_line h, uiElement = None\<rparr> \<in> set structural
               \<longleftrightarrow> visibility_flag (settings w) (heading_level h))"
    by (auto simp: structural_def)
  have ind: "\<forall>s'. regexArray s' = regexArray (settings w) \<longrightarrow>
                    pattern_entries newRegExp file (w\<lparr>settings := s'\<rparr>) = Inr matched"
    using pe by (auto simp: pattern_entries_def matchedHeadings_def split: option.splits if_splits)
  from fc hostHeadings_def structural_def pe m iff ind show ?thesis by blast
qed

text \<open>With only the flag of level 3 on, the index of \<open>a.md\<close> has the heading of level 3
  and the pattern entry; the headings of the other five levels are not in it.\<close>

theorem createHeadingsForFile_level_filter_witness:
  "createHeadingsForFile sample_RegExp file_a levels_world =
     (Inr (Some drawn_index_levels), snd (createHeadingsForFile sample_RegExp file_a levels_world)) \<and>
   (\<exists>fileCache hostHeadings structural matched.
      metadataCache levels_world (path file_a) = Some fileCache \<and>
      hostHeadings = (case headings fileCache of None \<Rightarrow> [] | Some hs \<Rightarrow> hs) \<and>
      structural =
        map (\<lambda>h. \<lparr>entry_text = Some (heading h), level = heading_level h,
                   line = position_start_line h, uiElement = None\<rparr>)
          [h \<leftarrow> hostHeadings. visibility_flag (settings levels_world) (heading_level h)] \<and>
      pattern_entries sample_RegExp file_a levels_world = Inr matched \<and>
      mset (map without_uiElement drawn_index_levels) = mset structural + mset matched \<and>
      (\<forall>h\<in>set hostHeadings. 1 \<le> heading_level h \<and> heading_level h \<le> 6 \<longrightarrow>
         (\<lparr>entry_text = Some (heading h), level = heading_level h,
           line = position_start_line h, uiElement = None\<rparr> \<in> set structural
          \<longleftrightarrow> visibility_flag (settings levels_world) (heading_level h))) \<and>
      (\<forall>s'. regexArray s' = regexArray (settings levels_world) \<longrightarrow>
             pattern_entries sample_RegExp file_a (levels_world\<lparr>settings := s'\<rparr>) = Inr matched)) \<and>
   metadataCache levels_world (path file_a) = Some \<lparr>headings = Some six_headings\<rparr> \<and>
   map (\<lambda>h. \<lparr>entry_text = Some (heading h), level = heading_level h,
              line = position_start_line h, uiElement = None\<rparr>)
     [h \<leftarrow> six_headings. visibility_flag (settings levels_world) (heading_level h)] =
     [\<lparr>entry_text = Some ''Three'', level = 3, line = 2, uiElement = None\<rparr>] \<and>
   pattern_entries sample_RegExp file_a levels_world =
     Inr [\<lparr>entry_text = Some ''Important'', level = 7, line = 6, uiElement = None\<rparr>]"
proof -
  have c1: "metadataCache levels_world (path file_a) = Some \<lparr>headings = Some six_headings\<rparr>"
    by (simp add: levels_world_def file_a_def)
  have c2: "map (\<lambda>h. \<lparr>entry_text = Some (heading h), level = heading_level h,
              line = position_start_line h, uiElement = None\<rparr>)
     [h \<leftarrow> six_headings. visibility_flag (settings levels_world) (heading_level h)] =
     [\<lparr>entry_text = Some ''Three'', level = 3, line = 2, uiElement = None\<rparr>]"
    by code_simp
  have c3: "pattern_entries sample_RegExp file_a levels_world =
     Inr [\<lparr>entry_text = Some ''Important'', level = 7, line = 6, uiElement = None\<rparr>]"
    by code_simp
  have "fst (createHeadingsForFile sample_RegExp file_a levels_world) = Inr (Some drawn_index_levels)"
    by code_simp
  then have h: "createHeadingsForFile sample_RegExp file_a levels_world =
     (Inr (Some drawn_index_levels), snd (createHeadingsForFile sample_RegExp file_a levels_world))"
    by (simp add: prod_eq_iff)
  from h c1 c2 c3 createHeadingsForFile_level_filter [OF h] show ?thesis by blast
qed

section \<open>Claims about errors during a rebuild\<close>




text \<open>
  C3, as the code has it. No exception of \<open>new RegExp\<close> is caught. While the pattern list
  holds a pattern that does not compile, \<open>createHeadingsForFile\<close> throws for every file
  that has a metadata cache entry and leaves the state as it was; the rebuild loop
  changes nothing but the index, in which no name gains entries, and it ends with an
  exception as soon as one of its files has a metadata cache entry.
\<close>

theorem malformed_pattern_throws:
  assumes "rs \<in> set (regexArray (settings w))" and "newRegExp (pattern rs) = Inl e"
  shows "(metadataCache w (path file) \<noteq> None \<longrightarrow>
            (\<exists>e'. createHeadingsForFile newRegExp file w = (Inl e', w))) \<and>
         (\<exists>r w'. init_files newRegExp files w = (r, w') \<and>
            w'\<lparr>cachedHeadings := cachedHeadings w\<rparr> = w \<and>
            (\<forall>k. cachedHeadings w' k = None \<or> cachedHeadings w' k = cachedHeadings w k) \<and>
            ((\<exists>f\<in>set files. metadataCache w (path f) \<noteq> None) \<longrightarrow> r \<noteq> None))"
proof -
  have a: "metadataCache w (path file) \<noteq> None \<longrightarrow>
            (\<exists>e'. createHeadingsForFile newRegExp file w = (Inl e', w))"
    using createHeadingsForFile_malformed [of rs w newRegExp e "file"] assms by auto
  have "\<exists>r w'. init_files newRegExp files w = (r, w') \<and>
            w'\<lparr>cachedHeadings := cachedHeadings w\<rparr> = w \<and>
            (\<forall>k. cachedHeadings w' k = None \<or> cachedHeadings w' k = cachedHeadings w k) \<and>
            ((\<exists>f\<in>set files. metadataCache w (path f) \<noteq> None) \<longrightarrow> r \<noteq> None)"
    using assms(1)
  proof (induction files arbitrary: w)
    case Nil
    then show ?case by simp
  next
    case (Cons f fs)
    show ?case
    proof (cases "metadataCache w (path f)")
      case (Some fileCache)
      from createHeadingsForFile_malformed [of rs w newRegExp e f fileCache] Cons.prems assms(2) Some
      obtain e' where "createHeadingsForFile newRegExp f w = (Inl e', w)" by blast
      then show ?thesis by simp
    next
      case None
      let ?w1 = "w\<lparr>cachedHeadings := (cachedHeadings w)(name f := None)\<rparr>"
      have step: "init_files newRegExp (f # fs) w = init_files newRegExp fs ?w1"
        by (simp add: createHeadingsForFile_no_cache [OF None])
      have "rs \<in> set (regexArray (settings ?w1))" using Cons.prems by simp
      from Cons.IH [OF this] obtain r w' where
        i: "init_files newRegExp fs ?w1 = (r, w')"
        and fr: "w'\<lparr>cachedHeadings := cachedHeadings ?w1\<rparr> = ?w1"
        and ix: "\<forall>k. cachedHeadings w' k = None \<or> cachedHeadings w' k = cachedHeadings ?w1 k"
        and er: "(\<exists>f\<in>set fs. metadataCache ?w1 (path f) \<noteq> None) \<longrightarrow> r \<noteq> None"
        by blast
      from fr have "(w'\<lparr>cachedHeadings := cachedHeadings ?w1\<rparr>)\<lparr>cachedHeadings := cachedHeadings w\<rparr>
                    = ?w1\<lparr>cachedHeadings := cachedHeadings w\<rparr>"
        by simp
      then have fr': "w'\<lparr>cachedHeadings := cachedHeadings w\<rparr> = w" by simp
      have ix': "\<forall>k. cachedHeadings w' k = None \<or> cachedHeadings w' k = cachedHeadings w k"
      proof
        fix k
        from ix have "cachedHeadings w' k = None \<or> cachedHeadings w' k = cachedHeadings ?w1 k" by blast
        then show "cachedHeadings w' k = None \<or> cachedHeadings w' k = cachedHeadings w k"
          by (cases "k = name f") auto
      qed
      have er': "(\<exists>g\<in>set (f # fs). metadataCache w (path g) \<noteq> None) \<longrightarrow> r \<noteq> None"
        using er None by auto
      show ?thesis using step i fr' ix' er' by simp
    qed
  qed
  with a show ?thesis by blast
qed

text \<open>The sample vault with a pattern list that starts with \<^verbatim>\<open>(\<close>.\<close>

theorem malformed_pattern_throws_witness:
  "\<lparr>pattern = ''('', regex_level = 3\<rparr> \<in> set (regexArray (settings malformed_world)) \<and>
   sample_RegExp (pattern \<lparr>pattern = ''('', regex_level = 3\<rparr>) = Inl SyntaxError \<and>
   metadataCache malformed_world (path file_b) \<noteq> None \<and>
   (\<exists>e'. createHeadingsForFile sample_RegExp file_b malformed_world = (Inl e', malformed_world)) \<and>
   (\<exists>f\<in>set [file_c, file_a, file_b]. metadataCache malformed_world (path f) \<noteq> None) \<and>
   (\<exists>r w'. init_files sample_RegExp [file_c, file_a, file_b] malformed_world = (r, w') \<and>
      w'\<lparr>cachedHeadings := cachedHeadings malformed_world\<rparr> = malformed_world \<and>
      (\<forall>k. cachedHeadings w' k = None \<or> cachedHeadings w' k = cachedHeadings malformed_world k) \<and>
      r \<noteq> None)"
proof -
  have h1: "\<lparr>pattern = ''('', regex_level = 3\<rparr> \<in> set (regexArray (settings malformed_world))"
    by (simp add: malformed_world_def)
  have h2: "sample_RegExp (pattern \<lparr>pattern = ''('', regex_level = 3\<rparr>) = Inl SyntaxError"
    by (simp add: sample_RegExp_def default_pattern_def)
  have h3: "metadataCache malformed_world (path file_b) \<noteq> None"
    by (simp add: malformed_world_def sample_world_def file_b_def)
  have h4: "\<exists>f\<in>set [file_c, file_a, file_b]. metadataCache malformed_world (path f) \<noteq> None"
    using h3 by simp
  from h1 h2 h3 h4
    malformed_pattern_throws [of "\<lparr>pattern = ''('', regex_level = 3\<rparr>" malformed_world sample_RegExp
      SyntaxError file_b "[file_c, file_a, file_b]"]
  show ?thesis by blast
qed

text \<open>
  C3, as the specification has it (a pattern that does not compile counts as never
  matching, and the other patterns and files are still indexed), fails: with \<^verbatim>\<open>(\<close> before
  the default pattern, \<open>init\<close> ends with the \<open>SyntaxError\<close>, neither file is indexed and
  nothing is drawn below \<open>a.md\<close>, whereas without that pattern \<open>a.md\<close> is indexed.
\<close>

theorem malformed_pattern_aborts_rebuild:
  "fst (init sample_RegExp malformed_world) = Some SyntaxError \<and>
   cachedHeadings (snd (init sample_RegExp malformed_world)) ''a.md'' = None \<and>
   cachedHeadings (snd (init sample_RegExp malformed_world)) ''b.md'' = None \<and>
   visible_headings file_a (snd (init sample_RegExp malformed_world)) = None \<and>
   fst (init sample_RegExp sample_world) = None \<and>
   cachedHeadings (snd (init sample_RegExp sample_world)) ''a.md'' = Some drawn_index_a"
  by code_simp

section \<open>Claims about pattern entries and the highlight request\<close>

text \<open>
  C2, at an input where the code departs from it. The pattern \<^verbatim>\<open>^TODO$\<close> has no capture
  group and matches the line \<open>TODO\<close> of \<open>b.md\<close>; the match array has length 1, so the test
  \<open>matches.length < 1\<close> fails and the entry gets \<open>matches[1]\<close>, which is \<open>undefined\<close>, instead
  of the whole match. The node drawn for it has the empty text. (For a match array with
  an index 1 the entry has the first capture group and the level of the setting, see
  \<open>match_line_match\<close> and \<open>match_line_Important\<close>; a line without match gives no entry,
  see \<open>match_line_no_match\<close>.)
\<close>

theorem pattern_without_capture_group:
  "sample_RegExp ''^TODO$'' = Inr todo_line \<and>
   todo_line ''TODO'' = Some [Some ''TODO''] \<and>
   match_line sample_RegExp ''TODO'' 1 \<lparr>pattern = ''^TODO$'', regex_level = 7\<rparr> =
     Inr [\<lparr>entry_text = None, level = 7, line = 1, uiElement = None\<rparr>] \<and>
   fst (createHeadingsForFile sample_RegExp file_b todo_world) =
     Inr (Some [\<lparr>entry_text = Some ''Bee'', level = 2, line = 0, uiElement = Some 3\<rparr>,
                \<lparr>entry_text = None, level = 7, line = 1, uiElement = Some 4\<rparr>]) \<and>
   visible_headings file_b (snd (createHeadingsForFile sample_RegExp file_b todo_world)) =
     Some [(''Bee'', Some 10), ([], Some 60)]"
proof (intro conjI)
  show "sample_RegExp ''^TODO$'' = Inr todo_line"
    by (simp add: sample_RegExp_def default_pattern_def)
  show "todo_line ''TODO'' = Some [Some ''TODO'']"
    by (simp add: todo_line_def)
  show "match_line sample_RegExp ''TODO'' 1 \<lparr>pattern = ''^TODO$'', regex_level = 7\<rparr> =
     Inr [\<lparr>entry_text = None, level = 7, line = 1, uiElement = None\<rparr>]"
    by code_simp
  show "fst (createHeadingsForFile sample_RegExp file_b todo_world) =
     Inr (Some [\<lparr>entry_text = Some ''Bee'', level = 2, line = 0, uiElement = Some 3\<rparr>,
                \<lparr>entry_text = None, level = 7, line = 1, uiElement = Some 4\<rparr>])"
    by code_simp
  show "visible_headings file_b (snd (createHeadingsForFile sample_RegExp file_b todo_world)) =
     Some [(''Bee'', Some 10), ([], Some 60)]"
    by code_simp
qed

text \<open>
  C7, at an input where the code departs from it. Headings are switched off, so \<open>init\<close>
  indexes nothing; \<open>a.md\<close> is the focused document and has no entry in the index. The
  highlight request reveals the file and then throws a \<open>TypeError\<close>, because
  \<open>findClosestLineOnOrAbove\<close> reads \<open>length\<close> of \<open>undefined\<close>. (Without a focused document,
  or with an empty sequence in the index, the request ends without exception, see
  \<open>highlight_no_leaf\<close>, \<open>highlight_no_file\<close> and \<open>highlight_empty_index\<close>.)
\<close>

theorem highlight_without_index_entry:
  "fst (init sample_RegExp focused_world) = None \<and>
   cachedHeadings (snd (init sample_RegExp focused_world)) (name file_a) = None \<and>
   lastActiveMarkdownLeaf (snd (init sample_RegExp focused_world))
     = Some \<lparr>view_file = Some file_a, cursor_line = 7\<rparr> \<and>
   fst (highlightFileWithHeading (snd (init sample_RegExp focused_world))) = Some TypeError \<and>
   revealed (snd (highlightFileWithHeading (snd (init sample_RegExp focused_world)))) = [''notes/a.md'']"
  by code_simp

section \<open>Claims about the redraw\<close>

text \<open>
  C10. \<open>createClickableHeadings\<close> with an empty sequence returns at once: whatever the
  state (even without a file explorer or a tree entry for the file), no exception is
  thrown and the state, and with it every node drawn earlier, is as before.
\<close>

theorem createClickableHeadings_empty:
  "createClickableHeadings file [] w = (Inr [], w)"
  by (simp add: createClickableHeadings_def)

text \<open>
  C4, as the code has it. For a file whose tree entry holds at most one heading
  container, and a sequence that is not empty, the redraw ends without exception and
  leaves the entry with exactly one heading container; the container's children are
  exactly one node per entry, in order, each with the entry's text, indent, and
  click target, whatever the container held before. Redrawing once more with the same
  entries (with or without the node references that the first redraw stored in them)
  leaves one container and the same visible state.
\<close>

theorem createClickableHeadings_redraw:
  assumes "hs \<noteq> []" and "fileExplorer w = Some fileItems" and "fileItems (path file) = Some fileItem"
    and "count_class container_class (children (innerEl fileItem)) \<le> 1"
  shows "\<exists>hs' w' n. createClickableHeadings file hs w = (Inr hs', w') \<and>
           container_count file w' = Some 1 \<and>
           drawn_nodes file w' =
             Some (map2 (headingItem (path file) (getMarginMultiplier w)) [n..<n + length hs] hs) \<and>
           visible_headings file w' = Some (map (heading_view (getMarginMultiplier w)) hs) \<and>
           (\<forall>hs2. map without_uiElement hs2 = map without_uiElement hs \<longrightarrow>
              (\<exists>hs'' w''. createClickableHeadings file hs2 w' = (Inr hs'', w'') \<and>
                 container_count file w'' = Some 1 \<and>
                 visible_headings file w'' = visible_headings file w'))"
proof -
  from redraw_visible [OF assms] obtain hs' w' n where
    c: "createClickableHeadings file hs w = (Inr hs', w')"
    and k: "container_count file w' = Some 1"
    and d: "drawn_nodes file w' = Some (map2 (headingItem (path file) (getMarginMultiplier w)) [n..<n + length hs] hs)"
    and v: "visible_headings file w' = Some (map (heading_view (getMarginMultiplier w)) hs)"
    and m: "getMarginMultiplier w' = getMarginMultiplier w"
    by blast
  from k obtain fileItems' fileItem' where
    e: "fileExplorer w' = Some fileItems'" and i: "fileItems' (path file) = Some fileItem'"
    and k': "count_class container_class (children (innerEl fileItem')) \<le> 1"
    by (auto simp: container_count_def split: option.splits)
  have again: "\<forall>hs2. map without_uiElement hs2 = map without_uiElement hs \<longrightarrow>
              (\<exists>hs'' w''. createClickableHeadings file hs2 w' = (Inr hs'', w'') \<and>
                 container_count file w'' = Some 1 \<and>
                 visible_headings file w'' = visible_headings file w')"
  proof (intro allI impI)
    fix hs2 assume same: "map without_uiElement hs2 = map without_uiElement hs"
    then have "length hs2 = length hs" by (metis length_map)
    with assms(1) have ne: "hs2 \<noteq> []" by auto
    from redraw_visible [OF ne e i k'] obtain hs'' w'' where
      c2: "createClickableHeadings file hs2 w' = (Inr hs'', w'')"
      and k2: "container_count file w'' = Some 1"
      and v2: "visible_headings file w'' = Some (map (heading_view (getMarginMultiplier w')) hs2)"
      by blast
    have "visible_headings file w'' = visible_headings file w'"
      using v v2 m heading_view_without_uiElement [OF same] by simp
    with c2 k2 show "\<exists>hs'' w''. createClickableHeadings file hs2 w' = (Inr hs'', w'') \<and>
                 container_count file w'' = Some 1 \<and>
                 visible_headings file w'' = visible_headings file w'"
      by blast
  qed
  from c k d v again show ?thesis by blast
qed

text \<open>Two entries drawn below the fresh tree entry of \<open>a.md\<close>.\<close>

theorem createClickableHeadings_redraw_witness:
  "tl sample_index \<noteq> [] \<and>
   fileExplorer sample_world = Some sample_fileItems \<and>
   sample_fileItems (path file_a) = Some (tree_entry 0 ''a'') \<and>
   count_class container_class (children (innerEl (tree_entry 0 ''a''))) \<le> 1 \<and>
   (\<exists>hs' w' n. createClickableHeadings file_a (tl sample_index) sample_world = (Inr hs', w') \<and>
      container_count file_a w' = Some 1 \<and>
      drawn_nodes file_a w' =
        Some (map2 (headingItem (path file_a) (getMarginMultiplier sample_world))
                [n..<n + length (tl sample_index)] (tl sample_index)) \<and>
      visible_headings file_a w' = Some (map (heading_view (getMarginMultiplier sample_world)) (tl sample_index)) \<and>
      (\<forall>hs2. map without_uiElement hs2 = map without_uiElement (tl sample_index) \<longrightarrow>
         (\<exists>hs'' w''. createClickableHeadings file_a hs2 w' = (Inr hs'', w'') \<and>
            container_count file_a w'' = Some 1 \<and>
            visible_headings file_a w'' = visible_headings file_a w')))"
proof -
  have h1: "tl sample_index \<noteq> []" by (simp add: sample_index_def)
  have h2: "fileExplorer sample_world = Some sample_fileItems" by (simp add: sample_world_def)
  have h3: "sample_fileItems (path file_a) = Some (tree_entry 0 ''a'')"
    by (simp add: sample_fileItems_def file_a_def)
  have h4: "count_class container_class (children (innerEl (tree_entry 0 ''a''))) \<le> 1"
    by (simp add: tree_entry_def)
  from h1 h2 h3 h4 createClickableHeadings_redraw [OF h1 h2 h3 h4] show ?thesis by blast
qed

text \<open>
  C4, as the specification has it (for every sequence), fails for the empty sequence:
  the two nodes drawn earlier below \<open>a.md\<close> stay, although the sequence has no entry, and
  a tree entry without heading container does not get one.
\<close>

theorem createClickableHeadings_empty_keeps_stale_nodes:
  "drawn_nodes file_a drawn_world =
     Some [Element 3 [heading_class] ''Important'' (Some 60) (Some (''notes/a.md'', 5)) [],
           Element 4 [heading_class] ''Intro'' (Some 0) (Some (''notes/a.md'', 10)) []] \<and>
   fst (createClickableHeadings file_a [] drawn_world) = Inr [] \<and>
   visible_headings file_a (snd (createClickableHeadings file_a [] drawn_world)) =
     Some [(''Important'', Some 60), (''Intro'', Some 0)] \<and>
   fst (createClickableHeadings file_a [] sample_world) = Inr [] \<and>
   container_count file_a (snd (createClickableHeadings file_a [] sample_world)) = Some 0"
  by code_simp

end
